theory Spec2Isabelle
  imports Complex_Main
begin

section \<open>Geometry\<close>

text \<open>
  Points are the rendering library's \<open>Vector3\<close> and \<open>Vector2\<close>. Their coordinates are
  JavaScript numbers; the model takes them as real numbers, so rounding of the
  floating-point operations is not part of it.
\<close>

datatype vec3 = Vector3 (vx: real) (vy: real) (vz: real)

datatype vec2 = Vector2 (v2x: real) (v2y: real)

text \<open>\<open>Vector3.distanceTo\<close>: the square root of the squared coordinate differences.\<close>

definition distanceTo :: "vec3 \<Rightarrow> vec3 \<Rightarrow> real" where
  "distanceTo a b = sqrt ((vx a - vx b)\<^sup>2 + (vy a - vy b)\<^sup>2 + (vz a - vz b)\<^sup>2)"

text \<open>\<open>Vector2.length\<close>, as used by \<open>Document2D.drawWall\<close>.\<close>

definition length_v2 :: "vec2 \<Rightarrow> real" where
  "length_v2 v = sqrt ((v2x v)\<^sup>2 + (v2y v)\<^sup>2)"

text \<open>
  \<open>Math.atan2(y, x)\<close> on real arguments: the angle of the point \<open>(x, y)\<close> in
  \<open>(-pi, pi]\<close>, and \<open>0\<close> at the origin.
\<close>

definition atan2 :: "real \<Rightarrow> real \<Rightarrow> real" where
  "atan2 y x =
     (if 0 < x then arctan (y / x)
      else if x < 0 \<and> 0 \<le> y then arctan (y / x) + pi
      else if x < 0 then arctan (y / x) - pi
      else if 0 < y then pi / 2
      else if y < 0 then - (pi / 2)
      else 0)"

section \<open>Walls and their identifiers\<close>

text \<open>
  The interface \<open>Wall\<close>. The constant field \<open>type\<close> is left out. The fields
  \<open>selected\<close> and \<open>highlighted\<close> are optional in the source: \<open>None\<close> is the
  absent field, which JavaScript reads as a false condition.
\<close>

record wall =
  start_w :: vec3
  end_w :: vec3
  angle_w :: real
  length_w :: real
  id_w :: string
  selected :: "bool option"
  highlighted :: "bool option"

definition truthy :: "bool option \<Rightarrow> bool" where
  "truthy b = (b = Some True)"

text \<open>
  The template literal \<open>`wall_${n}`\<close> for a non-negative integer \<open>n\<close>: the prefix
  followed by the decimal digits of \<open>n\<close>.
\<close>

definition digit_char :: "nat \<Rightarrow> char" where
  "digit_char d = char_of (48 + d)"

fun toString :: "nat \<Rightarrow> string" where
  "toString n =
     (if n < 10 then [digit_char n] else toString (n div 10) @ [digit_char (n mod 10)])"

declare toString.simps [simp del]

definition wall_id :: "nat \<Rightarrow> string" where
  "wall_id n = ''wall_'' @ toString n"

section \<open>The viewer\<close>

text \<open>
  The orthographic camera of the 2D view: the four frustum planes, the position and the
  zoom factor.
\<close>

record ortho_camera =
  cam_left :: real
  cam_right :: real
  cam_top :: real
  cam_bottom :: real
  cam_position :: vec3
  cam_zoom :: real

text \<open>
  A preview line is an object of the scene graph. The model gives every such object a
  handle (its identity) and keeps the two points of its geometry.
\<close>

record line_obj =
  handle :: nat
  p0 :: vec3
  p1 :: vec3

text \<open>
  The state of class \<open>Viewer\<close>. \<open>wallCounter\<close> is a JavaScript number that is only
  ever incremented from \<open>0\<close>; it is exact below \<open>2 ^ 53\<close>, and the model counts in
  \<open>nat\<close>. Of the children of \<open>scene2D\<close> the model keeps the handles of the preview
  lines; the grid, the lights and the meshes, dimension lines, labels and list entries
  that present the walls are derived from \<open>walls\<close> and are not tracked, nor are the 3D
  scene and its camera. \<open>nextObj\<close> numbers the objects created with \<open>new Line\<close>, and
  \<open>disposed\<close> collects the objects whose geometry and material were disposed of.
  \<open>clientWidth\<close> and \<open>clientHeight\<close> are the size of the container element.
\<close>

record viewer =
  clientWidth :: real
  clientHeight :: real
  camera2D :: ortho_camera
  is2D :: bool
  walls :: "wall list"
  wallCounter :: nat
  isDrawing :: bool
  startPoint :: "vec3 option"
  previewLine :: "line_obj option"
  selectedWall :: "string option"
  isDrawingMode :: bool
  scene2D :: "nat list"
  nextObj :: nat
  disposed :: "nat set"

text \<open>
  A mouse event, together with what the rendering library computes from the pointer
  position when the handler asks for it: \<open>pick\<close> is the \<open>wallId\<close> of the first object
  that \<open>getWallIntersection\<close> returns (\<open>None\<close> when the list is empty),
  \<open>unprojected\<close> is the pointer position unprojected through the 2D camera, and
  \<open>rayPlane\<close> is the result of \<open>ray.intersectPlane\<close> for the 3D camera (\<open>None\<close>
  when the ray does not meet the plane).
\<close>

record mouse_event =
  button :: nat
  shiftKey :: bool
  pick :: "string option"
  unprojected :: vec3
  rayPlane :: "vec3 option"

datatype error = TypeError

subsection \<open>Bounding boxes\<close>

text \<open>
  The library's \<open>Box2\<close>. A new box is empty (its minimum is \<open>+Infinity\<close> and its
  maximum \<open>-Infinity\<close>); \<open>EmptyBox\<close> stands for that value.
\<close>

datatype box2 = EmptyBox | Box2 vec2 vec2

fun expandByPoint :: "box2 \<Rightarrow> vec2 \<Rightarrow> box2" where
  "expandByPoint EmptyBox p = Box2 p p"
| "expandByPoint (Box2 mn mx) p =
     Box2 (Vector2 (min (v2x mn) (v2x p)) (min (v2y mn) (v2y p)))
          (Vector2 (max (v2x mx) (v2x p)) (max (v2y mx) (v2y p)))"

definition setFromPoints :: "vec2 list \<Rightarrow> box2" where
  "setFromPoints ps = foldl expandByPoint EmptyBox ps"

fun isEmpty :: "box2 \<Rightarrow> bool" where
  "isEmpty EmptyBox = True"
| "isEmpty (Box2 mn mx) = (v2x mx < v2x mn \<or> v2y mx < v2y mn)"

fun getSize :: "box2 \<Rightarrow> vec2" where
  "getSize EmptyBox = Vector2 0 0"
| "getSize (Box2 mn mx) =
     (if isEmpty (Box2 mn mx) then Vector2 0 0
      else Vector2 (v2x mx - v2x mn) (v2y mx - v2y mn))"

fun getCenter :: "box2 \<Rightarrow> vec2" where
  "getCenter EmptyBox = Vector2 0 0"
| "getCenter (Box2 mn mx) =
     (if isEmpty (Box2 mn mx) then Vector2 0 0
      else Vector2 ((v2x mn + v2x mx) * (1 / 2)) ((v2y mn + v2y mx) * (1 / 2)))"

fun expandByVector :: "box2 \<Rightarrow> vec2 \<Rightarrow> box2" where
  "expandByVector EmptyBox v = EmptyBox"
| "expandByVector (Box2 mn mx) v =
     Box2 (Vector2 (v2x mn - v2x v) (v2y mn - v2y v))
          (Vector2 (v2x mx + v2x v) (v2y mx + v2y v))"

definition multiplyScalar :: "vec2 \<Rightarrow> real \<Rightarrow> vec2" where
  "multiplyScalar v k = Vector2 (v2x v * k) (v2y v * k)"

subsection \<open>The wall registry\<close>

text \<open>
  \<open>addWall\<close> returns the new wall and the new state. Creating the wall's meshes and
  refreshing the list element do not change a tracked field.
\<close>

definition addWall :: "vec3 \<Rightarrow> vec3 \<Rightarrow> viewer \<Rightarrow> wall \<times> viewer" where
  "addWall start end s =
     (let length = distanceTo start end;
          angle = atan2 (vy end - vy start) (vx end - vx start);
          wall = \<lparr> start_w = start, end_w = end, angle_w = angle, length_w = length,
                   id_w = wall_id (wallCounter s),
                   selected = Some False, highlighted = Some False \<rparr>
      in (wall, s\<lparr> walls := walls s @ [wall], wallCounter := wallCounter s + 1 \<rparr>))"

definition highlightWall :: "string \<Rightarrow> viewer \<Rightarrow> viewer" where
  "highlightWall i s =
     s\<lparr> walls := map (\<lambda>w.
            if id_w w = i \<and> \<not> truthy (highlighted w) then w\<lparr> highlighted := Some True \<rparr>
            else if id_w w \<noteq> i \<and> truthy (highlighted w) then w\<lparr> highlighted := Some False \<rparr>
            else w) (walls s) \<rparr>"

definition clearWallStates :: "viewer \<Rightarrow> viewer" where
  "clearWallStates s =
     s\<lparr> walls := map (\<lambda>w. w\<lparr> selected := Some False, highlighted := Some False \<rparr>) (walls s),
        selectedWall := None \<rparr>"

text \<open>
  \<open>selectWall\<close> clears all states and then walks the walls once: a wall with the given
  id becomes selected and its id is recorded, every other wall becomes unselected.
\<close>

definition selectWall_step :: "string \<Rightarrow> wall list \<times> string option \<Rightarrow> wall \<Rightarrow> wall list \<times> string option" where
  "selectWall_step i acc w =
     (if id_w w = i then (fst acc @ [w\<lparr> selected := Some True \<rparr>], Some i)
      else (fst acc @ [w\<lparr> selected := Some False \<rparr>], snd acc))"

definition selectWall :: "string \<Rightarrow> viewer \<Rightarrow> viewer" where
  "selectWall i s =
     (let s1 = clearWallStates s;
          r = foldl (selectWall_step i) ([], selectedWall s1) (walls s1)
      in s1\<lparr> walls := fst r, selectedWall := snd r \<rparr>)"

definition clearHighlight :: "viewer \<Rightarrow> viewer" where
  "clearHighlight s =
     s\<lparr> walls := map (\<lambda>w.
            if truthy (highlighted w) \<and> \<not> truthy (selected w)
            then w\<lparr> highlighted := Some False \<rparr> else w) (walls s) \<rparr>"

subsection \<open>Camera framing\<close>

text \<open>
  \<open>zoomExtend\<close> in the 2D view. In the 3D view it moves the 3D camera only, which the
  model does not track. The aspect ratio is a quotient of the container's width and
  height; the model is meant for a container of positive size, where the quotient of
  the reals is the one the source computes (for a height of \<open>0\<close> JavaScript gives
  \<open>Infinity\<close> or \<open>NaN\<close>, and HOL gives \<open>0\<close>).
\<close>

definition wallPositions :: "wall list \<Rightarrow> vec3 list" where
  "wallPositions ws = concat (map (\<lambda>w. [start_w w, end_w w]) ws)"

definition targetBox :: "wall list \<Rightarrow> box2" where
  "targetBox ws =
     (if length ws > 0 then
        (let tb = setFromPoints (map (\<lambda>p. Vector2 (vx p) (vy p)) (wallPositions ws));
             padding = multiplyScalar (getSize tb) (1 / 10)
         in expandByVector tb padding)
      else
        (let gridExtent = 100 :: real;
             tb = Box2 (Vector2 (- gridExtent / 2) (- gridExtent / 2))
                       (Vector2 (gridExtent / 2) (gridExtent / 2));
             padding = multiplyScalar (getSize tb) (1 / 10)
         in expandByVector tb padding))"

definition zoomExtend :: "viewer \<Rightarrow> viewer" where
  "zoomExtend s =
     (if is2D s then
        (let tb = targetBox (walls s);
             center = getCenter tb;
             size = getSize tb;
             aspect = clientWidth s / clientHeight s;
             viewWidth = (if v2x size / aspect > v2y size then v2x size else v2y size * aspect);
             viewHeight = (if v2x size / aspect > v2y size then v2x size / aspect else v2y size);
             halfViewWidth = viewWidth / 2;
             halfViewHeight = viewHeight / 2
         in s\<lparr> camera2D := (camera2D s)
               \<lparr> cam_left := v2x center - halfViewWidth,
                 cam_right := v2x center + halfViewWidth,
                 cam_top := v2y center + halfViewHeight,
                 cam_bottom := v2y center - halfViewHeight,
                 cam_position := Vector3 (v2x center) (v2y center) (vz (cam_position (camera2D s))),
                 cam_zoom := 1 \<rparr> \<rparr>)
      else s)"

subsection \<open>Pointer handling\<close>

text \<open>
  \<open>getIntersectionPoint\<close>: in the 2D view the unprojected pointer position, put on the
  plane \<open>z = 0\<close>; in the 3D view the intersection of the pick ray with that plane, or
  \<open>null\<close>.
\<close>

definition getIntersectionPoint :: "viewer \<Rightarrow> mouse_event \<Rightarrow> vec3 option" where
  "getIntersectionPoint s e =
     (if is2D s then Some (Vector3 (vx (unprojected e)) (vy (unprojected e)) 0)
      else rayPlane e)"

text \<open>
  Removing the preview line from the scene, disposing of it and forgetting it: the block
  that \<open>onMouseDown\<close> and \<open>cleanupDrawing\<close> share. \<open>Scene.remove\<close> takes out the
  first occurrence of the object, if there is one.
\<close>

definition removePreview :: "viewer \<Rightarrow> viewer" where
  "removePreview s =
     (case previewLine s of
        None \<Rightarrow> s
      | Some l \<Rightarrow> s\<lparr> scene2D := remove1 (handle l) (scene2D s),
                     disposed := insert (handle l) (disposed s),
                     previewLine := None \<rparr>)"

text \<open>A new preview line between two points, added to the 2D scene.\<close>

definition newPreview :: "vec3 \<Rightarrow> vec3 \<Rightarrow> viewer \<Rightarrow> viewer" where
  "newPreview a b s =
     s\<lparr> previewLine := Some \<lparr> handle = nextObj s, p0 = a, p1 = b \<rparr>,
        scene2D := scene2D s @ [nextObj s],
        nextObj := nextObj s + 1 \<rparr>"

text \<open>
  The drawing branch of \<open>onMouseDown\<close> from the point where the intersection has been
  read. The second click calls \<open>addWall(this.startPoint!, endPoint)\<close>; with no start
  point stored, \<open>start.distanceTo\<close> throws before anything has been changed.
\<close>

definition drawingClick :: "vec3 option \<Rightarrow> bool \<Rightarrow> viewer \<Rightarrow> error + viewer" where
  "drawingClick intersection shift s =
     (case intersection of
        None \<Rightarrow> Inr s
      | Some p \<Rightarrow>
          if \<not> isDrawing s then
            Inr (newPreview p p (s\<lparr> isDrawing := True, startPoint := Some p \<rparr>))
          else
            (case startPoint s of
               None \<Rightarrow> Inl TypeError
             | Some a \<Rightarrow>
                 (let s1 = removePreview (snd (addWall a p s))
                  in if shift then Inr (newPreview p p (s1\<lparr> startPoint := Some p \<rparr>))
                     else Inr (s1\<lparr> isDrawing := False, startPoint := None \<rparr>))))"

definition clickSelect :: "mouse_event \<Rightarrow> viewer \<Rightarrow> viewer" where
  "clickSelect e s = (case pick e of Some i \<Rightarrow> selectWall i s | None \<Rightarrow> clearWallStates s)"

definition onMouseDown :: "mouse_event \<Rightarrow> viewer \<Rightarrow> error + viewer" where
  "onMouseDown e s =
     (if \<not> is2D s then Inr (clickSelect e s)
      else if isDrawingMode s then
        (if button e \<noteq> 0 then Inr s
         else drawingClick (getIntersectionPoint s e) (shiftKey e) s)
      else if button e = 0 then Inr (clickSelect e s)
      else Inr s)"

text \<open>
  The preview update of \<open>onMouseMove\<close> from the point where the intersection has been
  read: the far end of the preview line moves, its start stays.
\<close>

definition updatePreview :: "vec3 option \<Rightarrow> viewer \<Rightarrow> viewer" where
  "updatePreview intersection s =
     (case intersection of
        None \<Rightarrow> s
      | Some p \<Rightarrow>
          (case previewLine s of
             None \<Rightarrow> s
           | Some l \<Rightarrow> s\<lparr> previewLine := Some (l\<lparr> p1 := p \<rparr>) \<rparr>))"

definition onMouseMove :: "mouse_event \<Rightarrow> viewer \<Rightarrow> viewer" where
  "onMouseMove e s =
     (let s1 = (if is2D s then
                  (case pick e of
                     Some i \<Rightarrow> highlightWall i s
                   | None \<Rightarrow> if \<not> isDrawing s then clearHighlight s else s)
                else s)
      in if is2D s1 \<and> isDrawingMode s1 \<and> isDrawing s1
            \<and> startPoint s1 \<noteq> None \<and> previewLine s1 \<noteq> None
         then updatePreview (getIntersectionPoint s1 e) s1
         else s1)"

definition onMouseUp :: "mouse_event \<Rightarrow> viewer \<Rightarrow> viewer" where
  "onMouseUp e s = s"

subsection \<open>The wall list element\<close>

text \<open>
  The handlers of the list element get the \<open>wallId\<close> data attribute of the target when
  the target is a list item, and \<open>None\<close> otherwise; an empty attribute counts as absent.
\<close>

definition onWallListItemMouseOver :: "string option \<Rightarrow> viewer \<Rightarrow> viewer" where
  "onWallListItemMouseOver tgt s =
     (case tgt of
        None \<Rightarrow> s
      | Some i \<Rightarrow> if i \<noteq> [] then highlightWall i s else s)"

text \<open>\<open>Array.find\<close> followed by an update of the wall found.\<close>

fun update_first :: "('a \<Rightarrow> bool) \<Rightarrow> ('a \<Rightarrow> 'a) \<Rightarrow> 'a list \<Rightarrow> 'a list option" where
  "update_first P f [] = None"
| "update_first P f (x # xs) =
     (if P x then Some (f x # xs) else map_option ((#) x) (update_first P f xs))"

text \<open>
  \<open>onWallListItemMouseOut\<close> writes to the result of \<open>find\<close> without a check: with no
  wall of that id the handler throws, before it has changed anything.
\<close>

definition onWallListItemMouseOut :: "string option \<Rightarrow> viewer \<Rightarrow> error + viewer" where
  "onWallListItemMouseOut tgt s =
     (case tgt of
        None \<Rightarrow> Inr s
      | Some i \<Rightarrow>
          if i \<noteq> [] then
            (if selectedWall s \<noteq> Some i then
               (case update_first (\<lambda>w. id_w w = i) (\<lambda>w. w\<lparr> highlighted := Some False \<rparr>) (walls s) of
                  None \<Rightarrow> Inl TypeError
                | Some ws \<Rightarrow> Inr (s\<lparr> walls := ws \<rparr>))
             else Inr s)
          else Inr s)"

definition onWallListItemClick :: "string option \<Rightarrow> viewer \<Rightarrow> viewer" where
  "onWallListItemClick tgt s =
     (case tgt of
        None \<Rightarrow> s
      | Some i \<Rightarrow> if i \<noteq> [] then selectWall i s else s)"

subsection \<open>Deleting walls, modes and views\<close>

definition clearAllWalls :: "viewer \<Rightarrow> viewer" where
  "clearAllWalls s = zoomExtend (clearWallStates (s\<lparr> walls := [] \<rparr>))"

text \<open>
  \<open>deleteSelectedWalls\<close> collects the selected walls and splices each of them out of
  the array at its \<open>indexOf\<close>. The source finds a wall by object identity; the model
  removes the first equal record, which leaves the same list.
\<close>

definition deleteSelectedWalls :: "viewer \<Rightarrow> viewer" where
  "deleteSelectedWalls s =
     (let wallsToDelete = filter (\<lambda>w. truthy (selected w)) (walls s);
          s1 = s\<lparr> walls := foldl (\<lambda>ws w. remove1 w ws) (walls s) wallsToDelete \<rparr>
      in zoomExtend (clearWallStates s1))"

definition cleanupDrawing :: "viewer \<Rightarrow> viewer" where
  "cleanupDrawing s = (removePreview s)\<lparr> isDrawing := False, startPoint := None \<rparr>"

definition toggleDrawingMode :: "viewer \<Rightarrow> viewer" where
  "toggleDrawingMode s =
     (let s1 = s\<lparr> isDrawingMode := \<not> isDrawingMode s \<rparr>
      in if \<not> isDrawingMode s1 then cleanupDrawing s1 else s1)"

definition setView :: "bool \<Rightarrow> viewer \<Rightarrow> viewer" where
  "setView b s = s\<lparr> is2D := b \<rparr>"

text \<open>\<open>onWindowResize\<close>, for a container that now has width \<open>w\<close> and height \<open>h\<close>.\<close>

definition onWindowResize :: "real \<Rightarrow> real \<Rightarrow> viewer \<Rightarrow> viewer" where
  "onWindowResize w h s =
     (let aspect = w / h; frustumSize = 500 :: real
      in s\<lparr> clientWidth := w, clientHeight := h,
            camera2D := (camera2D s)
              \<lparr> cam_left := - frustumSize * aspect / 2,
                cam_right := frustumSize * aspect / 2,
                cam_top := frustumSize / 2,
                cam_bottom := - frustumSize / 2 \<rparr> \<rparr>)"

subsection \<open>Construction and runs\<close>

definition createCamera2D :: "real \<Rightarrow> real \<Rightarrow> ortho_camera" where
  "createCamera2D w h =
     (let aspect = w / h; frustumSize = 500 :: real
      in \<lparr> cam_left = - frustumSize * aspect / 2,
           cam_right = frustumSize * aspect / 2,
           cam_top = frustumSize / 2,
           cam_bottom = - frustumSize / 2,
           cam_position = Vector3 0 0 50,
           cam_zoom = 1 \<rparr>)"

text \<open>The viewer after its constructor, in a container of width \<open>w\<close> and height \<open>h\<close>.\<close>

definition viewer_init :: "real \<Rightarrow> real \<Rightarrow> viewer" where
  "viewer_init w h =
     zoomExtend
       \<lparr> clientWidth = w, clientHeight = h, camera2D = createCamera2D w h,
         is2D = True, walls = [], wallCounter = 0,
         isDrawing = False, startPoint = None, previewLine = None,
         selectedWall = None, isDrawingMode = True,
         scene2D = [], nextObj = 0, disposed = {} \<rparr>"

text \<open>
  What can happen to a viewer: a call of its public interface or one of the events it
  listens to.
\<close>

datatype action =
    SetView bool
  | AddWall vec3 vec3
  | MouseDown mouse_event
  | MouseMove mouse_event
  | MouseUp mouse_event
  | WallListMouseOver "string option"
  | WallListMouseOut "string option"
  | WallListClick "string option"
  | ClearAllWalls
  | DeleteSelectedWalls
  | ToggleDrawingMode
  | ZoomExtend
  | WindowResize real real

fun step :: "action \<Rightarrow> viewer \<Rightarrow> error + viewer" where
  "step (SetView b) s = Inr (setView b s)"
| "step (AddWall a b) s = Inr (snd (addWall a b s))"
| "step (MouseDown e) s = onMouseDown e s"
| "step (MouseMove e) s = Inr (onMouseMove e s)"
| "step (MouseUp e) s = Inr (onMouseUp e s)"
| "step (WallListMouseOver t) s = Inr (onWallListItemMouseOver t s)"
| "step (WallListMouseOut t) s = onWallListItemMouseOut t s"
| "step (WallListClick t) s = Inr (onWallListItemClick t s)"
| "step ClearAllWalls s = Inr (clearAllWalls s)"
| "step DeleteSelectedWalls s = Inr (deleteSelectedWalls s)"
| "step ToggleDrawingMode s = Inr (toggleDrawingMode s)"
| "step ZoomExtend s = Inr (zoomExtend s)"
| "step (WindowResize w h) s = Inr (onWindowResize w h s)"

text \<open>
  A run of actions. A handler that throws ends there; both places that throw do so
  before they change the state, so the next action finds the state as it was.
\<close>

fun run :: "action list \<Rightarrow> viewer \<Rightarrow> viewer" where
  "run [] s = s"
| "run (a # as) s = (case step a s of Inl e \<Rightarrow> run as s | Inr s' \<Rightarrow> run as s')"

text \<open>The states a viewer can be in: those some run reaches from a constructed viewer.\<close>

definition reachable :: "viewer \<Rightarrow> bool" where
  "reachable s = (\<exists>w h as. s = run as (viewer_init w h))"

section \<open>The document and its wall command\<close>

text \<open>
  The state of class \<open>Document2D\<close>: the walls, the ids of the highlighted and of the
  selected wall, and, of the scene, the preview meshes that the command adds and removes.
  The wall meshes and their colours are not tracked.
\<close>

record document2D =
  doc_walls :: "wall list"
  highlightedWall :: "string option"
  doc_selectedWall :: "string option"
  doc_scene :: "nat list"
  doc_disposed :: "nat set"

text \<open>
  \<open>drawWall\<close>, with the value \<open>now\<close> that \<open>Date.now()\<close> returns during the call:
  milliseconds since the epoch.
\<close>

definition drawWall :: "nat \<Rightarrow> vec3 \<Rightarrow> vec3 \<Rightarrow> document2D \<Rightarrow> wall \<times> document2D" where
  "drawWall now start end d =
     (let wallVec = Vector2 (vx end - vx start) (vy end - vy start);
          length = length_v2 wallVec;
          angle = atan2 (v2y wallVec) (v2x wallVec);
          wallId = ''wall_'' @ toString now;
          wall = \<lparr> start_w = start, end_w = end, angle_w = angle, length_w = length,
                   id_w = wallId, selected = None, highlighted = None \<rparr>
      in (wall, d\<lparr> doc_walls := doc_walls d @ [wall] \<rparr>))"

definition clearHighlight_doc :: "document2D \<Rightarrow> document2D" where
  "clearHighlight_doc d = d\<lparr> highlightedWall := None \<rparr>"

definition clearSelection :: "document2D \<Rightarrow> document2D" where
  "clearSelection d = d\<lparr> doc_selectedWall := None \<rparr>"

definition highlightWall_doc :: "string \<Rightarrow> document2D \<Rightarrow> document2D" where
  "highlightWall_doc i d = (clearHighlight_doc d)\<lparr> highlightedWall := Some i \<rparr>"

definition selectWall_doc :: "string \<Rightarrow> document2D \<Rightarrow> document2D" where
  "selectWall_doc i d = (clearSelection d)\<lparr> doc_selectedWall := Some i \<rparr>"

definition clearWallStates_doc :: "document2D \<Rightarrow> document2D" where
  "clearWallStates_doc d = clearSelection (clearHighlight_doc d)"

definition removeObject :: "nat \<Rightarrow> document2D \<Rightarrow> document2D" where
  "removeObject h d = d\<lparr> doc_scene := remove1 h (doc_scene d) \<rparr>"

definition addObject :: "nat \<Rightarrow> document2D \<Rightarrow> document2D" where
  "addObject h d = d\<lparr> doc_scene := doc_scene d @ [h] \<rparr>"

text \<open>
  The state of class \<open>CreateWallCommand\<close>. The command and its document refer to each
  other; the model keeps the document inside the command. \<open>mouse\<close> is the pointer
  position of the last move, in normalised device coordinates. A preview mesh is kept
  as its handle and the two points it spans. \<open>cmd_nextObj\<close> numbers the meshes
  created with \<open>new Mesh\<close>.
\<close>

record create_wall_command =
  document :: document2D
  cmd_startPoint :: "vec3 option"
  endPoint :: "vec3 option"
  mouse :: vec2
  drawing :: bool
  previewWall :: "line_obj option"
  isCreatingSeries :: bool
  lastEndPoint :: "vec3 option"
  cmd_nextObj :: nat

text \<open>\<open>execute\<close>, with the clock value for the \<open>drawWall\<close> it may call.\<close>

definition execute :: "nat \<Rightarrow> create_wall_command \<Rightarrow> create_wall_command" where
  "execute now c =
     (case (cmd_startPoint c, endPoint c) of
        (Some a, Some b) \<Rightarrow> c\<lparr> document := snd (drawWall now a b (document c)) \<rparr>
      | _ \<Rightarrow> c)"

text \<open>
  The handlers of the command. \<open>unproject\<close> is the unprojection through the document's
  camera at the time of the call; \<open>btn\<close> and \<open>shift\<close> are the event's \<open>button\<close> and
  \<open>shiftKey\<close>.
\<close>

definition onMouseUp_cmd ::
  "(vec2 \<Rightarrow> vec3) \<Rightarrow> nat \<Rightarrow> nat \<Rightarrow> bool \<Rightarrow> create_wall_command \<Rightarrow> create_wall_command" where
  "onMouseUp_cmd unproject now btn shift c =
     (if btn \<noteq> 0 then c
      else if drawing c \<and> cmd_startPoint c \<noteq> None then
        (let endPoint' = unproject (mouse c);
             c1 = c\<lparr> endPoint := Some endPoint' \<rparr>;
             c2 = (case previewWall c1 of
                     None \<Rightarrow> c1
                   | Some m \<Rightarrow>
                       c1\<lparr> document := (removeObject (handle m) (document c1))
                              \<lparr> doc_disposed := insert (handle m) (doc_disposed (document c1)) \<rparr>,
                           previewWall := None \<rparr>);
             c3 = execute now c2
         in if shift then
              c3\<lparr> isCreatingSeries := True, lastEndPoint := endPoint c3,
                  cmd_startPoint := endPoint c3 \<rparr>
            else
              c3\<lparr> isCreatingSeries := False, drawing := False,
                  cmd_startPoint := None, lastEndPoint := None \<rparr>)
      else c)"

definition onMouseDown_cmd ::
  "(vec2 \<Rightarrow> vec3) \<Rightarrow> nat \<Rightarrow> create_wall_command \<Rightarrow> create_wall_command" where
  "onMouseDown_cmd unproject btn c =
     (if btn \<noteq> 0 then c
      else if \<not> isCreatingSeries c then
        c\<lparr> drawing := True, cmd_startPoint := Some (unproject (mouse c)) \<rparr>
      else c)"

text \<open>\<open>onMouseMove\<close> of the command; \<open>ndc\<close> is the new pointer position.\<close>

definition onMouseMove_cmd ::
  "(vec2 \<Rightarrow> vec3) \<Rightarrow> vec2 \<Rightarrow> create_wall_command \<Rightarrow> create_wall_command" where
  "onMouseMove_cmd unproject ndc c =
     (let c1 = c\<lparr> mouse := ndc \<rparr>
      in if drawing c1 then
           (let currentPoint = unproject (mouse c1);
                startPoint' = (if isCreatingSeries c1 then lastEndPoint c1 else cmd_startPoint c1)
            in case startPoint' of
                 None \<Rightarrow> c1
               | Some a \<Rightarrow>
                   (let d1 = (case previewWall c1 of
                                None \<Rightarrow> document c1
                              | Some m \<Rightarrow>
                                  (removeObject (handle m) (document c1))
                                    \<lparr> doc_disposed := insert (handle m) (doc_disposed (document c1)) \<rparr>);
                        m' = \<lparr> handle = cmd_nextObj c1, p0 = a, p1 = currentPoint \<rparr>
                    in c1\<lparr> previewWall := Some m',
                          document := addObject (handle m') d1,
                          cmd_nextObj := cmd_nextObj c1 + 1 \<rparr>))
         else c1)"

text \<open>The command after its constructor, on a new document.\<close>

definition command_init :: create_wall_command where
  "command_init =
     \<lparr> document = \<lparr> doc_walls = [], highlightedWall = None, doc_selectedWall = None,
                    doc_scene = [], doc_disposed = {} \<rparr>,
       cmd_startPoint = None, endPoint = None, mouse = Vector2 0 0, drawing = False,
       previewWall = None, isCreatingSeries = False, lastEndPoint = None,
       cmd_nextObj = 0 \<rparr>"

section \<open>Properties of states\<close>

text \<open>How many walls of a list have \<open>selected == true\<close>, and how many \<open>highlighted == true\<close>.\<close>

definition selectedCount :: "wall list \<Rightarrow> nat" where
  "selectedCount ws = length (filter (\<lambda>w. selected w = Some True) ws)"

definition highlightedCount :: "wall list \<Rightarrow> nat" where
  "highlightedCount ws = length (filter (\<lambda>w. highlighted w = Some True) ws)"

text \<open>
  The derived fields of a wall agree with its end points: the length is the Euclidean
  distance and the angle is the direction from start to end.
\<close>

definition geometry_ok :: "wall \<Rightarrow> bool" where
  "geometry_ok w =
     (length_w w = sqrt ((vx (end_w w) - vx (start_w w))\<^sup>2 + (vy (end_w w) - vy (start_w w))\<^sup>2
                          + (vz (end_w w) - vz (start_w w))\<^sup>2)
      \<and> angle_w w = atan2 (vy (end_w w) - vy (start_w w)) (vx (end_w w) - vx (start_w w)))"

text \<open>The ids in the registry are pairwise different and were all issued by the counter.\<close>

definition ids_ok :: "viewer \<Rightarrow> bool" where
  "ids_ok s =
     (distinct (map id_w (walls s))
      \<and> (\<forall>w\<in>set (walls s). \<exists>k<wallCounter s. id_w w = wall_id k))"

text \<open>
  The drawing state is coherent: a gesture in progress has a start point and a preview
  line, there is no preview line without a gesture, and the scene holds that preview
  line and no other.
\<close>

definition drawing_ok :: "viewer \<Rightarrow> bool" where
  "drawing_ok s =
     ((isDrawing s \<longrightarrow> startPoint s \<noteq> None \<and> previewLine s \<noteq> None)
      \<and> (\<not> isDrawing s \<longrightarrow> previewLine s = None)
      \<and> scene2D s = (case previewLine s of None \<Rightarrow> [] | Some l \<Rightarrow> [handle l]))"

definition viewer_inv :: "viewer \<Rightarrow> bool" where
  "viewer_inv s =
     (ids_ok s \<and> selectedCount (walls s) \<le> 1 \<and> highlightedCount (walls s) \<le> 1
      \<and> (\<forall>w\<in>set (walls s). geometry_ok w) \<and> drawing_ok s)"

text \<open>
  The fields of a wall other than the two flags, and a wall with both flags cleared.
\<close>

definition wall_core :: "wall \<Rightarrow> vec3 \<times> vec3 \<times> real \<times> real \<times> string" where
  "wall_core w = (start_w w, end_w w, angle_w w, length_w w, id_w w)"

definition unflag :: "wall \<Rightarrow> wall" where
  "unflag w = w\<lparr> selected := Some False, highlighted := Some False \<rparr>"

text \<open>
  The viewer has no operation that removes one wall by its id. A given wall is removed
  by selecting it and deleting the selection.
\<close>

definition selectAndDelete :: "string \<Rightarrow> viewer \<Rightarrow> viewer" where
  "selectAndDelete i s = deleteSelectedWalls (selectWall i s)"

text \<open>
  What an orthographic camera that looks straight down the z axis shows of the plane.
  The rendering library takes the frustum planes in the camera's own coordinates, scaled
  by the zoom about the centre of the frustum; the view transform subtracts the camera's
  position. A point of the plane is in view when, relative to the position of the
  camera, it lies between the scaled planes.
\<close>

definition inView :: "ortho_camera \<Rightarrow> vec2 \<Rightarrow> bool" where
  "inView cam p =
     (let dx = (cam_right cam - cam_left cam) / (2 * cam_zoom cam);
          dy = (cam_top cam - cam_bottom cam) / (2 * cam_zoom cam);
          cx = (cam_right cam + cam_left cam) / 2;
          cy = (cam_top cam + cam_bottom cam) / 2;
          x = v2x p - vx (cam_position cam);
          y = v2y p - vy (cam_position cam)
      in cx - dx \<le> x \<and> x \<le> cx + dx \<and> cy - dy \<le> y \<and> y \<le> cy + dy)"

text \<open>
  An unprojection for examples: the camera of the document looks straight down and
  shows the plane unscaled.
\<close>

definition planar :: "vec2 \<Rightarrow> vec3" where
  "planar v = Vector3 (v2x v) (v2y v) 0"

text \<open>A point lies in a box.\<close>

fun containsPoint :: "box2 \<Rightarrow> vec2 \<Rightarrow> bool" where
  "containsPoint EmptyBox p = False"
| "containsPoint (Box2 mn mx) p =
     (v2x mn \<le> v2x p \<and> v2x p \<le> v2x mx \<and> v2y mn \<le> v2y p \<and> v2y p \<le> v2y mx)"

section \<open>Wall identifiers are injective\<close>

lemma digit_char_inj: "d < 10 \<Longrightarrow> e < 10 \<Longrightarrow> digit_char d = digit_char e \<Longrightarrow> d = e"
proof -
  assume d: "d < 10" and e: "e < 10" and eq: "digit_char d = digit_char e"
  from eq have "(of_char (char_of (48 + d)) :: nat) = of_char (char_of (48 + e))"
    by (simp add: digit_char_def)
  with d e show "d = e" by simp
qed

lemma toString_nonempty: "toString n \<noteq> []"
  by (subst toString.simps) simp

lemma toString_inj: "toString n = toString m \<Longrightarrow> n = m"
proof (induction n arbitrary: m rule: toString.induct)
  case (1 n)
  show ?case
  proof (cases "n < 10")
    case small: True
    show ?thesis
    proof (cases "m < 10")
      case True
      with small "1.prems" show ?thesis
        by (simp add: toString.simps [of n] toString.simps [of m] digit_char_inj)
    next
      case False
      with small "1.prems" toString_nonempty [of "m div 10"] show ?thesis
        by (simp add: toString.simps [of n] toString.simps [of m])
    qed
  next
    case big: False
    show ?thesis
    proof (cases "m < 10")
      case True
      with big "1.prems" toString_nonempty [of "n div 10"] show ?thesis
        by (simp add: toString.simps [of n] toString.simps [of m])
    next
      case False
      with big "1.prems" have eq: "toString (n div 10) = toString (m div 10)"
        and dg: "digit_char (n mod 10) = digit_char (m mod 10)"
        by (simp_all add: toString.simps [of n] toString.simps [of m])
      from "1.IH" [OF big eq] have "n div 10 = m div 10" .
      moreover from dg have "n mod 10 = m mod 10" by (simp add: digit_char_inj)
      ultimately show ?thesis by (metis div_mult_mod_eq)
    qed
  qed
qed

lemma wall_id_inj: "wall_id n = wall_id m \<longleftrightarrow> n = m"
  by (auto simp: wall_id_def dest: toString_inj)

lemma foldl_remove1_keep:
  "\<forall>w\<in>set ds. w \<noteq> x \<Longrightarrow> foldl (\<lambda>ws w. remove1 w ws) (x # xs) ds = x # foldl (\<lambda>ws w. remove1 w ws) xs ds"
  by (induction ds arbitrary: xs) auto

lemma foldl_remove1_filter:
  "foldl (\<lambda>ws w. remove1 w ws) xs (filter P xs) = filter (\<lambda>x. \<not> P x) xs"
proof (induction xs)
  case Nil
  show ?case by simp
next
  case (Cons x xs)
  show ?case
  proof (cases "P x")
    case True
    with Cons show ?thesis by simp
  next
    case False
    then have "\<forall>w\<in>set (filter P xs). w \<noteq> x" by auto
    from foldl_remove1_keep [OF this] Cons False show ?thesis by simp
  qed
qed

lemma foldl_selectWall_step:
  "foldl (selectWall_step i) (acc, sel) ws =
     (acc @ map (\<lambda>w. w\<lparr> selected := Some (id_w w = i) \<rparr>) ws,
      if i \<in> id_w ` set ws then Some i else sel)"
  by (induction ws arbitrary: acc sel) (auto simp: selectWall_step_def)

section \<open>The invariant of the viewer\<close>

lemma zoomExtend_fields [simp]:
  "walls (zoomExtend s) = walls s"
  "wallCounter (zoomExtend s) = wallCounter s"
  "isDrawing (zoomExtend s) = isDrawing s"
  "startPoint (zoomExtend s) = startPoint s"
  "previewLine (zoomExtend s) = previewLine s"
  "scene2D (zoomExtend s) = scene2D s"
  "isDrawingMode (zoomExtend s) = isDrawingMode s"
  "is2D (zoomExtend s) = is2D s"
  "selectedWall (zoomExtend s) = selectedWall s"
  "disposed (zoomExtend s) = disposed s"
  "nextObj (zoomExtend s) = nextObj s"
  "clientWidth (zoomExtend s) = clientWidth s"
  "clientHeight (zoomExtend s) = clientHeight s"
  by (simp_all add: zoomExtend_def Let_def)

lemma unflag_fields [simp]:
  "id_w (unflag w) = id_w w"
  "start_w (unflag w) = start_w w"
  "end_w (unflag w) = end_w w"
  "length_w (unflag w) = length_w w"
  "angle_w (unflag w) = angle_w w"
  "selected (unflag w) = Some False"
  "highlighted (unflag w) = Some False"
  "wall_core (unflag w) = wall_core w"
  by (simp_all add: unflag_def wall_core_def)

lemma selectWall_eq:
  "selectWall i s =
     s\<lparr> walls := map (\<lambda>w. w\<lparr> selected := Some (id_w w = i), highlighted := Some False \<rparr>) (walls s),
        selectedWall := (if i \<in> id_w ` set (walls s) then Some i else None) \<rparr>"
  by (simp add: selectWall_def clearWallStates_def Let_def foldl_selectWall_step comp_def image_image)

lemma clearWallStates_walls: "walls (clearWallStates s) = map unflag (walls s)"
  by (simp add: clearWallStates_def unflag_def)

lemma deleteSelectedWalls_walls:
  "walls (deleteSelectedWalls s) = map unflag (filter (\<lambda>w. \<not> truthy (selected w)) (walls s))"
  by (simp add: deleteSelectedWalls_def Let_def clearWallStates_def foldl_remove1_filter unflag_def)

lemma deleteSelectedWalls_fields [simp]:
  "wallCounter (deleteSelectedWalls s) = wallCounter s"
  "isDrawing (deleteSelectedWalls s) = isDrawing s"
  "startPoint (deleteSelectedWalls s) = startPoint s"
  "previewLine (deleteSelectedWalls s) = previewLine s"
  "scene2D (deleteSelectedWalls s) = scene2D s"
  "isDrawingMode (deleteSelectedWalls s) = isDrawingMode s"
  "is2D (deleteSelectedWalls s) = is2D s"
  by (simp_all add: deleteSelectedWalls_def Let_def clearWallStates_def)

lemma filter_id_le_1:
  "distinct (map id_w ws) \<Longrightarrow> length (filter (\<lambda>w. id_w w = i) ws) \<le> Suc 0"
proof (induction ws)
  case Nil
  show ?case by simp
next
  case (Cons a ws)
  show ?case
  proof (cases "id_w a = i")
    case True
    with Cons.prems have "filter (\<lambda>w. id_w w = i) ws = []"
      by (force simp: filter_empty_conv image_iff)
    with True show ?thesis by simp
  next
    case False
    with Cons show ?thesis by simp
  qed
qed

lemma filter_length_map_le:
  "(\<And>w. Q (f w) \<Longrightarrow> P w) \<Longrightarrow> length (filter Q (map f ws)) \<le> length (filter P ws)"
  by (induction ws) auto

text \<open>The invariant's parts that read the walls only through their cores.\<close>

lemma map_id_w_core: "map id_w ws = map (\<lambda>c. snd (snd (snd (snd c)))) (map wall_core ws)"
  by (simp add: wall_core_def comp_def)

lemma core_map_id_w:
  "map wall_core ws' = map wall_core ws \<Longrightarrow> map id_w ws' = map id_w ws"
  by (simp add: map_id_w_core)

lemma core_geometry:
  "wall_core w' = wall_core w \<Longrightarrow> geometry_ok w' = geometry_ok w"
  by (simp add: wall_core_def geometry_ok_def)

lemma core_all_geometry:
  assumes "map wall_core ws' = map wall_core ws" and "\<forall>w\<in>set ws. geometry_ok w"
  shows "\<forall>w\<in>set ws'. geometry_ok w"
proof
  fix w' assume "w' \<in> set ws'"
  then have "wall_core w' \<in> set (map wall_core ws)"
    using assms(1) by (metis imageI list.set_map)
  then obtain w where "w \<in> set ws" and "wall_core w' = wall_core w" by auto
  with assms(2) core_geometry show "geometry_ok w'" by blast
qed

lemma core_ids_ok:
  assumes "map wall_core (walls s') = map wall_core (walls s)"
    and "wallCounter s' = wallCounter s" and "ids_ok s"
  shows "ids_ok s'"
proof -
  have m: "map id_w (walls s') = map id_w (walls s)"
    using assms(1) by (rule core_map_id_w)
  then have "id_w ` set (walls s') = id_w ` set (walls s)"
    by (metis list.set_map)
  with assms(2,3) m show ?thesis
    unfolding ids_ok_def by (metis (no_types, lifting) imageE imageI)
qed

text \<open>The operations that only change flags.\<close>

lemma core_clearWallStates: "map wall_core (walls (clearWallStates s)) = map wall_core (walls s)"
  by (simp add: clearWallStates_walls comp_def)

lemma core_selectWall: "map wall_core (walls (selectWall i s)) = map wall_core (walls s)"
  by (simp add: selectWall_eq comp_def wall_core_def)

lemma core_highlightWall: "map wall_core (walls (highlightWall i s)) = map wall_core (walls s)"
  by (simp add: highlightWall_def comp_def wall_core_def)

lemma core_clearHighlight: "map wall_core (walls (clearHighlight s)) = map wall_core (walls s)"
  by (simp add: clearHighlight_def comp_def wall_core_def)

lemma flag_op_fields [simp]:
  "wallCounter (clearWallStates s) = wallCounter s"
  "wallCounter (selectWall i s) = wallCounter s"
  "wallCounter (highlightWall i s) = wallCounter s"
  "wallCounter (clearHighlight s) = wallCounter s"
  "drawing_ok (clearWallStates s) = drawing_ok s"
  "drawing_ok (selectWall i s) = drawing_ok s"
  "drawing_ok (highlightWall i s) = drawing_ok s"
  "drawing_ok (clearHighlight s) = drawing_ok s"
  by (simp_all add: clearWallStates_def selectWall_eq highlightWall_def clearHighlight_def drawing_ok_def)

lemma count_clearWallStates [simp]:
  "selectedCount (walls (clearWallStates s)) = 0"
  "highlightedCount (walls (clearWallStates s)) = 0"
  by (simp_all add: clearWallStates_walls selectedCount_def highlightedCount_def comp_def)

lemma selected_selectWall:
  "w \<in> set (walls (selectWall i s)) \<Longrightarrow> selected w = Some (id_w w = i) \<and> highlighted w = Some False"
  by (auto simp: selectWall_eq)

lemma walls_selectWall:
  "walls (selectWall i s) = map (\<lambda>w. w\<lparr> selected := Some (id_w w = i), highlighted := Some False \<rparr>) (walls s)"
  by (simp add: selectWall_eq)

lemma count_selectWall:
  assumes "distinct (map id_w (walls s))"
  shows "selectedCount (walls (selectWall i s)) \<le> 1" and "highlightedCount (walls (selectWall i s)) = 0"
proof -
  have "selectedCount (walls (selectWall i s)) \<le> length (filter (\<lambda>w. id_w w = i) (walls s))"
    unfolding selectedCount_def walls_selectWall by (rule filter_length_map_le) simp
  with filter_id_le_1 [OF assms, of i] show "selectedCount (walls (selectWall i s)) \<le> 1" by simp
  show "highlightedCount (walls (selectWall i s)) = 0"
    by (simp add: selectWall_eq highlightedCount_def comp_def)
qed

lemma walls_highlightWall:
  "walls (highlightWall i s) = map (\<lambda>w.
            if id_w w = i \<and> \<not> truthy (highlighted w) then w\<lparr> highlighted := Some True \<rparr>
            else if id_w w \<noteq> i \<and> truthy (highlighted w) then w\<lparr> highlighted := Some False \<rparr>
            else w) (walls s)"
  by (simp add: highlightWall_def)

lemma walls_clearHighlight:
  "walls (clearHighlight s) = map (\<lambda>w.
            if truthy (highlighted w) \<and> \<not> truthy (selected w)
            then w\<lparr> highlighted := Some False \<rparr> else w) (walls s)"
  by (simp add: clearHighlight_def)

lemma filter_map_same:
  "(\<And>w. P (f w) = P w) \<Longrightarrow> length (filter P (map f ws)) = length (filter P ws)"
  by (induction ws) auto

lemma count_highlightWall:
  assumes "distinct (map id_w (walls s))"
  shows "highlightedCount (walls (highlightWall i s)) \<le> 1"
    and "selectedCount (walls (highlightWall i s)) = selectedCount (walls s)"
proof -
  have "highlightedCount (walls (highlightWall i s)) \<le> length (filter (\<lambda>w. id_w w = i) (walls s))"
    unfolding highlightedCount_def walls_highlightWall
    by (rule filter_length_map_le) (auto simp: truthy_def split: if_splits)
  with filter_id_le_1 [OF assms, of i] show "highlightedCount (walls (highlightWall i s)) \<le> 1" by simp
  show "selectedCount (walls (highlightWall i s)) = selectedCount (walls s)"
    unfolding selectedCount_def walls_highlightWall
    by (rule filter_map_same) simp
qed

lemma count_clearHighlight:
  "highlightedCount (walls (clearHighlight s)) \<le> highlightedCount (walls s)"
  "selectedCount (walls (clearHighlight s)) = selectedCount (walls s)"
proof -
  show "highlightedCount (walls (clearHighlight s)) \<le> highlightedCount (walls s)"
    unfolding highlightedCount_def walls_clearHighlight
    by (rule filter_length_map_le) (auto split: if_splits)
  show "selectedCount (walls (clearHighlight s)) = selectedCount (walls s)"
    unfolding selectedCount_def walls_clearHighlight
    by (rule filter_map_same) simp
qed

lemma inv_addWall: "viewer_inv s \<Longrightarrow> viewer_inv (snd (addWall a b s))"
  unfolding viewer_inv_def ids_ok_def drawing_ok_def selectedCount_def highlightedCount_def
  by (auto simp: addWall_def Let_def wall_id_inj geometry_ok_def distanceTo_def power2_commute
      intro: less_SucI)

lemma inv_clearWallStates: "viewer_inv s \<Longrightarrow> viewer_inv (clearWallStates s)"
  unfolding viewer_inv_def
  using core_ids_ok [OF core_clearWallStates [where s = s]] core_all_geometry [OF core_clearWallStates [where s = s]]
  by simp

lemma inv_selectWall: "viewer_inv s \<Longrightarrow> viewer_inv (selectWall i s)"
  unfolding viewer_inv_def
  using core_ids_ok [OF core_selectWall [where s = s and i = i]] core_all_geometry [OF core_selectWall [where s = s and i = i]]
    count_selectWall [where s = s and i = i]
  by (simp add: ids_ok_def)

lemma inv_highlightWall: "viewer_inv s \<Longrightarrow> viewer_inv (highlightWall i s)"
  unfolding viewer_inv_def
  using core_ids_ok [OF core_highlightWall [where s = s and i = i]] core_all_geometry [OF core_highlightWall [where s = s and i = i]]
    count_highlightWall [where s = s and i = i]
  by (simp add: ids_ok_def)

lemma inv_clearHighlight: "viewer_inv s \<Longrightarrow> viewer_inv (clearHighlight s)"
  unfolding viewer_inv_def
  using core_ids_ok [OF core_clearHighlight [where s = s]] core_all_geometry [OF core_clearHighlight [where s = s]]
    count_clearHighlight [where s = s]
  by simp

lemma inv_zoomExtend: "viewer_inv s \<Longrightarrow> viewer_inv (zoomExtend s)"
  by (simp add: viewer_inv_def ids_ok_def drawing_ok_def)

lemma inv_clearAllWalls: "viewer_inv s \<Longrightarrow> viewer_inv (clearAllWalls s)"
  by (simp add: viewer_inv_def ids_ok_def drawing_ok_def clearAllWalls_def clearWallStates_def
      selectedCount_def highlightedCount_def)

lemma inv_deleteSelectedWalls: "viewer_inv s \<Longrightarrow> viewer_inv (deleteSelectedWalls s)"
proof -
  assume inv: "viewer_inv s"
  let ?ws = "filter (\<lambda>w. \<not> truthy (selected w)) (walls s)"
  have w: "walls (deleteSelectedWalls s) = map unflag ?ws"
    by (rule deleteSelectedWalls_walls)
  have ids: "map id_w (map unflag ?ws) = map id_w ?ws"
    by (simp add: comp_def)
  from inv have "distinct (map id_w (walls s))" by (simp add: viewer_inv_def ids_ok_def)
  then have "distinct (map id_w ?ws)" by (rule distinct_map_filter)
  moreover have "\<forall>w\<in>set ?ws. \<exists>k<wallCounter s. id_w w = wall_id k"
    using inv by (simp add: viewer_inv_def ids_ok_def)
  ultimately have "ids_ok (deleteSelectedWalls s)"
    by (simp add: ids_ok_def w ids del: map_map)
  moreover have "selectedCount (map unflag ?ws) = 0" "highlightedCount (map unflag ?ws) = 0"
    by (simp_all add: selectedCount_def highlightedCount_def comp_def)
  moreover have "\<forall>w\<in>set (map unflag ?ws). geometry_ok w"
    using inv by (auto simp: viewer_inv_def geometry_ok_def)
  moreover have "drawing_ok (deleteSelectedWalls s)"
    using inv by (simp add: viewer_inv_def drawing_ok_def)
  ultimately show ?thesis by (simp add: viewer_inv_def w del: map_map)
qed

lemma inv_removePreview:
  "viewer_inv s \<Longrightarrow> viewer_inv ((removePreview s)\<lparr> isDrawing := False, startPoint := None \<rparr>)"
  by (auto simp: viewer_inv_def ids_ok_def drawing_ok_def removePreview_def split: option.splits)

lemma inv_cleanupDrawing: "viewer_inv s \<Longrightarrow> viewer_inv (cleanupDrawing s)"
  unfolding cleanupDrawing_def by (rule inv_removePreview)

lemma inv_isDrawingMode: "viewer_inv s \<Longrightarrow> viewer_inv (s\<lparr> isDrawingMode := b \<rparr>)"
  by (simp add: viewer_inv_def ids_ok_def drawing_ok_def)

lemma inv_toggleDrawingMode: "viewer_inv s \<Longrightarrow> viewer_inv (toggleDrawingMode s)"
  by (simp add: toggleDrawingMode_def Let_def inv_cleanupDrawing inv_isDrawingMode)

lemma inv_setView: "viewer_inv s \<Longrightarrow> viewer_inv (setView b s)"
  by (simp add: viewer_inv_def ids_ok_def drawing_ok_def setView_def)

lemma inv_onWindowResize: "viewer_inv s \<Longrightarrow> viewer_inv (onWindowResize w h s)"
  by (simp add: viewer_inv_def ids_ok_def drawing_ok_def onWindowResize_def Let_def)

lemma inv_drawingClick:
  assumes "viewer_inv s" and "drawingClick p shift s = Inr s'"
  shows "viewer_inv s'"
proof (cases p)
  case None
  with assms show ?thesis by (simp add: drawingClick_def)
next
  case (Some q)
  show ?thesis
  proof (cases "isDrawing s")
    case False
    with assms Some show ?thesis
      by (auto simp: drawingClick_def viewer_inv_def ids_ok_def drawing_ok_def newPreview_def)
  next
    case True
    with assms(1) obtain a where a: "startPoint s = Some a"
      by (auto simp: viewer_inv_def drawing_ok_def)
    let ?s1 = "snd (addWall a q s)"
    have i1: "viewer_inv ?s1" using assms(1) by (rule inv_addWall)
    have i2: "viewer_inv ((removePreview ?s1)\<lparr> isDrawing := False, startPoint := None \<rparr>)"
      using i1 by (rule inv_removePreview)
    show ?thesis
    proof (cases shift)
      case False
      with assms(2) Some True a i2 show ?thesis
        by (simp add: drawingClick_def Let_def)
    next
      case shift: True
      from assms(2) Some True a shift
      have s': "s' = newPreview q q ((removePreview ?s1)\<lparr> startPoint := Some q \<rparr>)"
        by (simp add: drawingClick_def Let_def)
      from i2 True show ?thesis
        unfolding s'
        by (auto simp: viewer_inv_def ids_ok_def drawing_ok_def newPreview_def removePreview_def
            addWall_def Let_def split: option.splits)
    qed
  qed
qed

lemma inv_clickSelect: "viewer_inv s \<Longrightarrow> viewer_inv (clickSelect e s)"
  by (simp add: clickSelect_def inv_selectWall inv_clearWallStates split: option.splits)

lemma inv_onMouseDown:
  "viewer_inv s \<Longrightarrow> onMouseDown e s = Inr s' \<Longrightarrow> viewer_inv s'"
  by (auto simp: onMouseDown_def inv_clickSelect split: if_splits dest: inv_drawingClick)

lemma inv_updatePreview: "viewer_inv s \<Longrightarrow> viewer_inv (updatePreview p s)"
  by (auto simp: updatePreview_def viewer_inv_def ids_ok_def drawing_ok_def split: option.splits)

lemma inv_onMouseMove: "viewer_inv s \<Longrightarrow> viewer_inv (onMouseMove e s)"
  by (simp add: onMouseMove_def Let_def inv_updatePreview inv_highlightWall inv_clearHighlight
      split: option.splits)

lemma update_first_core:
  "update_first P f ws = Some ws' \<Longrightarrow> (\<And>w. wall_core (f w) = wall_core w)
   \<Longrightarrow> map wall_core ws' = map wall_core ws"
  by (induction ws arbitrary: ws') (auto split: if_splits)

lemma update_first_selected:
  "update_first P f ws = Some ws' \<Longrightarrow> (\<And>w. selected (f w) = selected w)
   \<Longrightarrow> selectedCount ws' = selectedCount ws"
  by (induction ws arbitrary: ws') (auto simp: selectedCount_def split: if_splits)

lemma update_first_highlighted:
  "update_first P f ws = Some ws' \<Longrightarrow> (\<And>w. highlighted (f w) = Some False)
   \<Longrightarrow> highlightedCount ws' \<le> highlightedCount ws"
  by (induction ws arbitrary: ws') (auto simp: highlightedCount_def split: if_splits)

lemma inv_walls_update:
  assumes "viewer_inv s" and "map wall_core ws' = map wall_core (walls s)"
    and "selectedCount ws' \<le> selectedCount (walls s)"
    and "highlightedCount ws' \<le> highlightedCount (walls s)"
  shows "viewer_inv (s\<lparr> walls := ws' \<rparr>)"
proof -
  from assms(1) have i: "ids_ok s" and g: "\<forall>w\<in>set (walls s). geometry_ok w"
    and d: "drawing_ok s" and c: "selectedCount (walls s) \<le> 1" "highlightedCount (walls s) \<le> 1"
    by (simp_all add: viewer_inv_def)
  have m: "map wall_core (walls (s\<lparr> walls := ws' \<rparr>)) = map wall_core (walls s)"
    using assms(2) by simp
  have "ids_ok (s\<lparr> walls := ws' \<rparr>)"
    using m _ i by (rule core_ids_ok) simp
  moreover have "\<forall>w\<in>set ws'. geometry_ok w"
    using assms(2) g by (rule core_all_geometry)
  moreover have "drawing_ok (s\<lparr> walls := ws' \<rparr>)"
    using d by (simp add: drawing_ok_def)
  moreover have "selectedCount ws' \<le> 1" "highlightedCount ws' \<le> 1"
    using c assms(3,4) by linarith+
  ultimately show ?thesis by (simp add: viewer_inv_def)
qed

lemma inv_onWallListItemMouseOut:
  assumes "viewer_inv s" and "onWallListItemMouseOut t s = Inr s'"
  shows "viewer_inv s'"
proof (cases "\<exists>i ws. t = Some i \<and> i \<noteq> [] \<and> selectedWall s \<noteq> Some i
    \<and> update_first (\<lambda>w. id_w w = i) (\<lambda>w. w\<lparr> highlighted := Some False \<rparr>) (walls s) = Some ws")
  case True
  then obtain i ws where t: "t = Some i" "i \<noteq> []" "selectedWall s \<noteq> Some i"
    and u: "update_first (\<lambda>w. id_w w = i) (\<lambda>w. w\<lparr> highlighted := Some False \<rparr>) (walls s) = Some ws"
    by blast
  from assms(2) t u have s': "s' = s\<lparr> walls := ws \<rparr>"
    by (simp add: onWallListItemMouseOut_def)
  show ?thesis unfolding s'
    using assms(1)
  proof (rule inv_walls_update)
    show "map wall_core ws = map wall_core (walls s)"
      using u by (rule update_first_core) (simp add: wall_core_def)
    show "selectedCount ws \<le> selectedCount (walls s)"
      using update_first_selected [OF u] by simp
    show "highlightedCount ws \<le> highlightedCount (walls s)"
      using u by (rule update_first_highlighted) simp
  qed
next
  case False
  with assms show ?thesis
    by (auto simp: onWallListItemMouseOut_def split: option.splits if_splits)
qed

lemma inv_step: "viewer_inv s \<Longrightarrow> step a s = Inr s' \<Longrightarrow> viewer_inv s'"
  by (cases a)
    (auto simp: inv_setView inv_addWall inv_onMouseMove onMouseUp_def
      onWallListItemMouseOver_def onWallListItemClick_def inv_highlightWall inv_selectWall
      inv_clearAllWalls inv_deleteSelectedWalls inv_toggleDrawingMode inv_zoomExtend
      inv_onWindowResize
      split: option.splits
      dest: inv_onMouseDown inv_onWallListItemMouseOut)

lemma inv_run: "viewer_inv s \<Longrightarrow> viewer_inv (run as s)"
  by (induction as arbitrary: s) (auto split: sum.splits dest: inv_step)

lemma inv_init: "viewer_inv (viewer_init w h)"
  unfolding viewer_init_def
  by (rule inv_zoomExtend)
    (simp add: viewer_inv_def ids_ok_def drawing_ok_def selectedCount_def highlightedCount_def)

lemma reachable_inv: "reachable s \<Longrightarrow> viewer_inv s"
  by (auto simp: reachable_def inv_run inv_init)

section \<open>Facts about single operations and runs\<close>

lemma addWall_fields [simp]:
  "walls (snd (addWall a b s)) = walls s @ [fst (addWall a b s)]"
  "wallCounter (snd (addWall a b s)) = wallCounter s + 1"
  "start_w (fst (addWall a b s)) = a"
  "end_w (fst (addWall a b s)) = b"
  "length_w (fst (addWall a b s)) = distanceTo a b"
  "angle_w (fst (addWall a b s)) = atan2 (vy b - vy a) (vx b - vx a)"
  "id_w (fst (addWall a b s)) = wall_id (wallCounter s)"
  "selected (fst (addWall a b s)) = Some False"
  "highlighted (fst (addWall a b s)) = Some False"
  by (simp_all add: addWall_def Let_def)

lemma reachable_run: "reachable (run as (viewer_init w h))"
  unfolding reachable_def by blast

lemma run_append: "run (as @ bs) s = run bs (run as s)"
  by (induction as arbitrary: s) (auto split: sum.splits)

lemma reachable_step: "reachable s \<Longrightarrow> step a s = Inr s' \<Longrightarrow> reachable s'"
proof -
  assume "reachable s" and st: "step a s = Inr s'"
  then obtain w h as where s: "s = run as (viewer_init w h)" unfolding reachable_def by blast
  have "run (as @ [a]) (viewer_init w h) = s'"
    using st by (simp add: run_append s [symmetric])
  then show ?thesis unfolding reachable_def by metis
qed

section \<open>Claims\<close>

text \<open>
  Claim C1. In every state the viewer can reach, at most one wall of the registry has
  \<open>selected == true\<close>, and so it is after each operation that changes the registry:
  a wall that \<open>addWall\<close> adds starts unselected; after \<open>selectWall i\<close> a wall is
  selected exactly when its id is \<open>i\<close>, so every other wall has been cleared; and
  \<open>clearWallStates\<close>, \<open>deleteSelectedWalls\<close> and \<open>clearAllWalls\<close> leave no wall
  selected.
\<close>

theorem selection_at_most_one:
  "reachable s \<Longrightarrow>
     selectedCount (walls s) \<le> 1
   \<and> selected (fst (addWall a b s)) = Some False
   \<and> selectedCount (walls (snd (addWall a b s))) \<le> 1
   \<and> (\<forall>w\<in>set (walls (selectWall i s)). selected w = Some (id_w w = i))
   \<and> selectedCount (walls (selectWall i s)) \<le> 1
   \<and> selectedCount (walls (clearWallStates s)) = 0
   \<and> selectedCount (walls (deleteSelectedWalls s)) = 0
   \<and> selectedCount (walls (clearAllWalls s)) = 0"
proof -
  assume r: "reachable s"
  then have inv: "viewer_inv s" by (rule reachable_inv)
  from inv have d: "distinct (map id_w (walls s))" by (simp add: viewer_inv_def ids_ok_def)
  have "selectedCount (walls s) \<le> 1" using inv by (simp add: viewer_inv_def)
  moreover have "selectedCount (walls (snd (addWall a b s))) \<le> 1"
    using inv_addWall [OF inv, of a b] by (simp only: viewer_inv_def)
  moreover have "\<forall>w\<in>set (walls (selectWall i s)). selected w = Some (id_w w = i)"
    using selected_selectWall by blast
  moreover have "selectedCount (walls (selectWall i s)) \<le> 1"
    using d by (rule count_selectWall)
  moreover have "selectedCount (walls (deleteSelectedWalls s)) = 0"
    by (simp add: deleteSelectedWalls_walls selectedCount_def comp_def)
  moreover have "selectedCount (walls (clearAllWalls s)) = 0"
    by (simp add: clearAllWalls_def)
  ultimately show ?thesis by simp
qed


lemma wall_id_small:
  "wall_id 0 = ''wall_0''" "wall_id 1 = ''wall_1''" "wall_id (Suc 0) = ''wall_1''" "wall_id 2 = ''wall_2''"
  by code_simp+

text \<open>
  Witness for C1: two walls are added and the first is clicked in the wall list; the
  first wall is then the selected one, and selecting the second moves the selection.
\<close>

theorem selection_at_most_one_witness:
  "reachable (run [AddWall (Vector3 0 0 0) (Vector3 3 4 0), AddWall (Vector3 3 4 0) (Vector3 3 0 0),
                   WallListClick (Some ''wall_0'')] (viewer_init 800 600))
   \<and> map selected (walls (run [AddWall (Vector3 0 0 0) (Vector3 3 4 0), AddWall (Vector3 3 4 0) (Vector3 3 0 0),
                   WallListClick (Some ''wall_0'')] (viewer_init 800 600))) = [Some True, Some False]
   \<and> selectedCount (walls (run [AddWall (Vector3 0 0 0) (Vector3 3 4 0), AddWall (Vector3 3 4 0) (Vector3 3 0 0),
                   WallListClick (Some ''wall_0'')] (viewer_init 800 600))) \<le> 1
   \<and> map selected (walls (selectWall ''wall_1'' (run [AddWall (Vector3 0 0 0) (Vector3 3 4 0), AddWall (Vector3 3 4 0) (Vector3 3 0 0),
                   WallListClick (Some ''wall_0'')] (viewer_init 800 600)))) = [Some False, Some True]
   \<and> selectedCount (walls (selectWall ''wall_1'' (run [AddWall (Vector3 0 0 0) (Vector3 3 4 0), AddWall (Vector3 3 4 0) (Vector3 3 0 0),
                   WallListClick (Some ''wall_0'')] (viewer_init 800 600)))) \<le> 1"
proof -
  let ?S = "run [AddWall (Vector3 0 0 0) (Vector3 3 4 0), AddWall (Vector3 3 4 0) (Vector3 3 0 0),
                   WallListClick (Some ''wall_0'')] (viewer_init 800 600)"
  have r: "reachable ?S" unfolding reachable_def by blast
  have e: "map selected (walls ?S) = [Some True, Some False]"
    by (simp add: onWallListItemClick_def selectWall_eq addWall_def Let_def viewer_init_def wall_id_small)
  have f: "map selected (walls (selectWall ''wall_1'' ?S)) = [Some False, Some True]"
    by (simp add: onWallListItemClick_def selectWall_eq addWall_def Let_def viewer_init_def wall_id_small)
  from selection_at_most_one [OF r, of "Vector3 0 0 0" "Vector3 1 1 0" "''wall_1''"] r e f
  show ?thesis by blast
qed

lemma highlighted_highlightWall:
  "w \<in> set (walls (highlightWall i s)) \<Longrightarrow> (highlighted w = Some True) = (id_w w = i)"
  by (auto simp: walls_highlightWall truthy_def split: if_splits)

text \<open>
  Claim C10. In every state the viewer can reach, at most one wall of the registry has
  \<open>highlighted == true\<close>: a wall that \<open>addWall\<close> adds starts unhighlighted, and
  after \<open>highlightWall i\<close> a wall is highlighted exactly when its id is \<open>i\<close>, so
  the flag of every other wall has been cleared. The document records the highlighted
  wall as a single id and leaves the flags of its walls alone.
\<close>

theorem highlight_at_most_one:
  "reachable s \<Longrightarrow>
     highlightedCount (walls s) \<le> 1
   \<and> highlighted (fst (addWall a b s)) = Some False
   \<and> highlightedCount (walls (snd (addWall a b s))) \<le> 1
   \<and> (\<forall>w\<in>set (walls (highlightWall i s)). (highlighted w = Some True) = (id_w w = i))
   \<and> highlightedCount (walls (highlightWall i s)) \<le> 1
   \<and> highlightedWall (highlightWall_doc j d) = Some j
   \<and> doc_walls (highlightWall_doc j d) = doc_walls d"
proof -
  assume r: "reachable s"
  then have inv: "viewer_inv s" by (rule reachable_inv)
  from inv have d: "distinct (map id_w (walls s))" by (simp add: viewer_inv_def ids_ok_def)
  have "highlightedCount (walls s) \<le> 1" using inv by (simp add: viewer_inv_def)
  moreover have "highlightedCount (walls (snd (addWall a b s))) \<le> 1"
    using inv_addWall [OF inv, of a b] by (simp only: viewer_inv_def)
  moreover have "\<forall>w\<in>set (walls (highlightWall i s)). (highlighted w = Some True) = (id_w w = i)"
    using highlighted_highlightWall by blast
  moreover have "highlightedCount (walls (highlightWall i s)) \<le> 1"
    using d by (rule count_highlightWall)
  moreover have "highlightedWall (highlightWall_doc j d) = Some j"
    "doc_walls (highlightWall_doc j d) = doc_walls d"
    by (simp_all add: highlightWall_doc_def clearHighlight_doc_def)
  ultimately show ?thesis by simp
qed

text \<open>
  Witness for C10: two walls are added and the pointer enters the list item of the
  first; hovering the second wall then moves the highlight.
\<close>

theorem highlight_at_most_one_witness:
  "reachable (run [AddWall (Vector3 0 0 0) (Vector3 3 4 0), AddWall (Vector3 3 4 0) (Vector3 3 0 0),
                   WallListMouseOver (Some ''wall_0'')] (viewer_init 800 600))
   \<and> map highlighted (walls (run [AddWall (Vector3 0 0 0) (Vector3 3 4 0), AddWall (Vector3 3 4 0) (Vector3 3 0 0),
                   WallListMouseOver (Some ''wall_0'')] (viewer_init 800 600))) = [Some True, Some False]
   \<and> highlightedCount (walls (run [AddWall (Vector3 0 0 0) (Vector3 3 4 0), AddWall (Vector3 3 4 0) (Vector3 3 0 0),
                   WallListMouseOver (Some ''wall_0'')] (viewer_init 800 600))) \<le> 1
   \<and> map highlighted (walls (highlightWall ''wall_1'' (run [AddWall (Vector3 0 0 0) (Vector3 3 4 0), AddWall (Vector3 3 4 0) (Vector3 3 0 0),
                   WallListMouseOver (Some ''wall_0'')] (viewer_init 800 600)))) = [Some False, Some True]
   \<and> highlightedCount (walls (highlightWall ''wall_1'' (run [AddWall (Vector3 0 0 0) (Vector3 3 4 0), AddWall (Vector3 3 4 0) (Vector3 3 0 0),
                   WallListMouseOver (Some ''wall_0'')] (viewer_init 800 600)))) \<le> 1"
proof -
  let ?S = "run [AddWall (Vector3 0 0 0) (Vector3 3 4 0), AddWall (Vector3 3 4 0) (Vector3 3 0 0),
                   WallListMouseOver (Some ''wall_0'')] (viewer_init 800 600)"
  have r: "reachable ?S" unfolding reachable_def by blast
  have e: "map highlighted (walls ?S) = [Some True, Some False]"
    by (simp add: onWallListItemMouseOver_def highlightWall_def addWall_def Let_def viewer_init_def
        wall_id_small truthy_def)
  have f: "map highlighted (walls (highlightWall ''wall_1'' ?S)) = [Some False, Some True]"
    by (simp add: onWallListItemMouseOver_def highlightWall_def addWall_def Let_def viewer_init_def
        wall_id_small truthy_def)
  from highlight_at_most_one [OF r, of "Vector3 0 0 0" "Vector3 1 1 0" "''wall_1''"] r e f
  show ?thesis by blast
qed

lemma distanceTo_euclid:
  "distanceTo a b = sqrt ((vx b - vx a)\<^sup>2 + (vy b - vy a)\<^sup>2 + (vz b - vz a)\<^sup>2)"
  by (simp add: distanceTo_def power2_commute)

text \<open>
  \<open>Document2D.drawWall\<close> measures the length in the plane, from the \<open>x\<close> and \<open>y\<close>
  differences alone; the derived fields of its wall agree with the end points exactly
  when the two points have the same height.
\<close>

lemma drawWall_fields:
  "start_w (fst (drawWall t a b d)) = a"
  "end_w (fst (drawWall t a b d)) = b"
  "length_w (fst (drawWall t a b d)) = sqrt ((vx b - vx a)\<^sup>2 + (vy b - vy a)\<^sup>2)"
  "angle_w (fst (drawWall t a b d)) = atan2 (vy b - vy a) (vx b - vx a)"
  "doc_walls (snd (drawWall t a b d)) = doc_walls d @ [fst (drawWall t a b d)]"
  by (simp_all add: drawWall_def Let_def length_v2_def)

lemma drawWall_geometry_iff:
  "geometry_ok (fst (drawWall t a b d)) = (vz a = vz b)"
proof -
  have "(sqrt ((vx b - vx a)\<^sup>2 + (vy b - vy a)\<^sup>2)
         = sqrt ((vx b - vx a)\<^sup>2 + (vy b - vy a)\<^sup>2 + (vz b - vz a)\<^sup>2))
        = (vz a = vz b)"
    by auto
  then show ?thesis by (simp add: geometry_ok_def drawWall_fields)
qed

text \<open>
  Claim C3, as amended. Every wall in the registry of a reachable state of the viewer
  has a length that is the Euclidean distance between its start and its end and an
  angle that is \<open>atan2 (end.y - start.y) (end.x - start.x)\<close>; the wall that
  \<open>addWall a b\<close> returns starts at \<open>a\<close>, ends at \<open>b\<close>, has these two values, and
  is the wall appended to the registry. The wall that \<open>Document2D.drawWall\<close> returns
  and appends has the same angle, and its length is the distance in the plane,
  \<open>sqrt ((end.x - start.x)\<^sup>2 + (end.y - start.y)\<^sup>2)\<close>: it is the Euclidean distance
  between start and end exactly when the two points have the same \<open>z\<close>. Highlighting,
  selecting and clearing in the document leave its walls as they are.
\<close>

theorem wall_geometry:
  "reachable s \<Longrightarrow>
     (\<forall>w\<in>set (walls s). geometry_ok w)
   \<and> start_w (fst (addWall a b s)) = a \<and> end_w (fst (addWall a b s)) = b
   \<and> length_w (fst (addWall a b s)) = sqrt ((vx b - vx a)\<^sup>2 + (vy b - vy a)\<^sup>2 + (vz b - vz a)\<^sup>2)
   \<and> angle_w (fst (addWall a b s)) = atan2 (vy b - vy a) (vx b - vx a)
   \<and> walls (snd (addWall a b s)) = walls s @ [fst (addWall a b s)]
   \<and> (\<forall>w\<in>set (walls (snd (addWall a b s))). geometry_ok w)
   \<and> start_w (fst (drawWall t a b d)) = a \<and> end_w (fst (drawWall t a b d)) = b
   \<and> length_w (fst (drawWall t a b d)) = sqrt ((vx b - vx a)\<^sup>2 + (vy b - vy a)\<^sup>2)
   \<and> angle_w (fst (drawWall t a b d)) = atan2 (vy b - vy a) (vx b - vx a)
   \<and> doc_walls (snd (drawWall t a b d)) = doc_walls d @ [fst (drawWall t a b d)]
   \<and> geometry_ok (fst (drawWall t a b d)) = (vz a = vz b)
   \<and> doc_walls (highlightWall_doc i d) = doc_walls d
   \<and> doc_walls (selectWall_doc i d) = doc_walls d
   \<and> doc_walls (clearWallStates_doc d) = doc_walls d"
proof -
  assume r: "reachable s"
  then have inv: "viewer_inv s" by (rule reachable_inv)
  have "\<forall>w\<in>set (walls s). geometry_ok w" using inv by (simp add: viewer_inv_def)
  moreover have "\<forall>w\<in>set (walls (snd (addWall a b s))). geometry_ok w"
    using inv_addWall [OF inv, of a b] unfolding viewer_inv_def by blast
  moreover have "doc_walls (highlightWall_doc i d) = doc_walls d"
    "doc_walls (selectWall_doc i d) = doc_walls d"
    "doc_walls (clearWallStates_doc d) = doc_walls d"
    by (simp_all add: highlightWall_doc_def selectWall_doc_def clearWallStates_doc_def
        clearHighlight_doc_def clearSelection_def)
  ultimately show ?thesis
    by (simp add: distanceTo_euclid drawWall_fields drawWall_geometry_iff)
qed

lemma atan2_4_3: "atan2 4 3 = arctan (4 / 3)"
  by (simp add: atan2_def)

lemma sqrt_25: "sqrt 25 = 5"
  by (rule real_sqrt_unique) simp_all

lemma sqrt_169: "sqrt 169 = 13"
  by (rule real_sqrt_unique) simp_all

text \<open>
  Witness for C3: the wall from \<open>(0, 0, 0)\<close> to \<open>(3, 4, 0)\<close> has length \<open>5\<close> and
  angle \<open>atan2 4 3\<close>, in a new viewer and in a new document.
\<close>

theorem wall_geometry_witness:
  "reachable (viewer_init 800 600)
   \<and> length_w (fst (addWall (Vector3 0 0 0) (Vector3 3 4 0) (viewer_init 800 600))) = 5
   \<and> angle_w (fst (addWall (Vector3 0 0 0) (Vector3 3 4 0) (viewer_init 800 600))) = atan2 4 3
   \<and> atan2 4 3 = arctan (4 / 3)
   \<and> map length_w (walls (snd (addWall (Vector3 0 0 0) (Vector3 3 4 0) (viewer_init 800 600)))) = [5]
   \<and> geometry_ok (fst (addWall (Vector3 0 0 0) (Vector3 3 4 0) (viewer_init 800 600)))
   \<and> length_w (fst (drawWall 1700000000000 (Vector3 0 0 0) (Vector3 3 4 0) (document command_init))) = 5
   \<and> angle_w (fst (drawWall 1700000000000 (Vector3 0 0 0) (Vector3 3 4 0) (document command_init))) = atan2 4 3
   \<and> geometry_ok (fst (drawWall 1700000000000 (Vector3 0 0 0) (Vector3 3 4 0) (document command_init)))"
proof -
  have r: "reachable (viewer_init 800 600)"
    using reachable_run [of "[]" 800 600] by simp
  have w: "walls (viewer_init 800 600) = []" by (simp add: viewer_init_def)
  from wall_geometry [OF r, of "Vector3 0 0 0" "Vector3 3 4 0" 1700000000000 "document command_init"] r w
  show ?thesis by (simp add: sqrt_25 atan2_4_3)
qed

text \<open>
  Counterexample to C3 as stated: \<open>drawWall\<close> from \<open>(0, 0, 0)\<close> to \<open>(3, 4, 12)\<close>
  stores the length \<open>5\<close>, and the distance between the two points is \<open>13\<close>.
\<close>

theorem wall_geometry_counterexample:
  "length_w (fst (drawWall 1700000000000 (Vector3 0 0 0) (Vector3 3 4 12) (document command_init))) = 5
   \<and> distanceTo (Vector3 0 0 0) (Vector3 3 4 12) = 13
   \<and> start_w (fst (drawWall 1700000000000 (Vector3 0 0 0) (Vector3 3 4 12) (document command_init)))
       = Vector3 0 0 0
   \<and> end_w (fst (drawWall 1700000000000 (Vector3 0 0 0) (Vector3 3 4 12) (document command_init)))
       = Vector3 3 4 12
   \<and> map length_w (doc_walls (snd (drawWall 1700000000000 (Vector3 0 0 0) (Vector3 3 4 12)
         (document command_init)))) = [5]"
  by (simp add: drawWall_def Let_def length_v2_def distanceTo_def command_init_def sqrt_25 sqrt_169)

lemma addWall_frame [simp]:
  "isDrawing (snd (addWall a b s)) = isDrawing s"
  "startPoint (snd (addWall a b s)) = startPoint s"
  "previewLine (snd (addWall a b s)) = previewLine s"
  "scene2D (snd (addWall a b s)) = scene2D s"
  "isDrawingMode (snd (addWall a b s)) = isDrawingMode s"
  "is2D (snd (addWall a b s)) = is2D s"
  "nextObj (snd (addWall a b s)) = nextObj s"
  "disposed (snd (addWall a b s)) = disposed s"
  "selectedWall (snd (addWall a b s)) = selectedWall s"
  "camera2D (snd (addWall a b s)) = camera2D s"
  "clientWidth (snd (addWall a b s)) = clientWidth s"
  "clientHeight (snd (addWall a b s)) = clientHeight s"
  by (simp_all add: addWall_def Let_def)

lemma atan2_0_0: "atan2 0 0 = 0"
  by (simp add: atan2_def)

text \<open>
  Claim C2, as amended. \<open>addWall\<close> does not reject a wall whose start and end
  coincide: it appends a wall of length \<open>0\<close> and angle \<open>0\<close> to the registry, which
  grows by one, and raises no error. \<open>Document2D.drawWall\<close> does the same.
\<close>

theorem degenerate_wall_is_added:
  "walls (snd (addWall p p s)) = walls s @ [fst (addWall p p s)]
   \<and> length (walls (snd (addWall p p s))) = length (walls s) + 1
   \<and> start_w (fst (addWall p p s)) = p \<and> end_w (fst (addWall p p s)) = p
   \<and> length_w (fst (addWall p p s)) = 0 \<and> angle_w (fst (addWall p p s)) = 0
   \<and> doc_walls (snd (drawWall t p p d)) = doc_walls d @ [fst (drawWall t p p d)]
   \<and> length_w (fst (drawWall t p p d)) = 0 \<and> angle_w (fst (drawWall t p p d)) = 0"
  by (simp add: distanceTo_def atan2_0_0 drawWall_def Let_def length_v2_def)

text \<open>
  Counterexample to C2 as stated: in a new viewer, \<open>addWall\<close> with both ends at
  \<open>(1, 2, 0)\<close> leaves one wall in the registry, and so do two clicks at the same
  place in drawing mode.
\<close>

theorem degenerate_wall_counterexample:
  "walls (viewer_init 800 600) = []
   \<and> length (walls (snd (addWall (Vector3 1 2 0) (Vector3 1 2 0) (viewer_init 800 600)))) = 1
   \<and> length (walls (run [MouseDown \<lparr> button = 0, shiftKey = False, pick = None,
                                      unprojected = Vector3 1 2 0, rayPlane = None \<rparr>,
                           MouseDown \<lparr> button = 0, shiftKey = False, pick = None,
                                      unprojected = Vector3 1 2 0, rayPlane = None \<rparr>]
                     (viewer_init 800 600))) = 1"
  by (simp add: viewer_init_def onMouseDown_def getIntersectionPoint_def drawingClick_def
      newPreview_def removePreview_def Let_def)

lemma digit_chars:
  "digit_char 0 = CHR ''0''" "digit_char 1 = CHR ''1''" "digit_char 2 = CHR ''2''"
  "digit_char 3 = CHR ''3''" "digit_char 4 = CHR ''4''" "digit_char 5 = CHR ''5''"
  "digit_char 6 = CHR ''6''" "digit_char 7 = CHR ''7''" "digit_char 8 = CHR ''8''"
  "digit_char 9 = CHR ''9''" "digit_char (Suc 0) = CHR ''1''"
  by code_simp+

lemma toString_example: "toString 1700000000000 = ''1700000000000''"
  by (simp add: toString.simps digit_chars)

text \<open>
  Claim C4 fails for \<open>Document2D.drawWall\<close>, which derives the id from the clock: two
  walls drawn while \<open>Date.now()\<close> returns the same millisecond get the same id, and
  both are in the registry.
\<close>

theorem drawWall_same_clock_same_id:
  "map id_w (doc_walls (snd (drawWall 1700000000000 (Vector3 5 0 0) (Vector3 5 5 0)
       (snd (drawWall 1700000000000 (Vector3 0 0 0) (Vector3 5 0 0) (document command_init))))))
   = [''wall_1700000000000'', ''wall_1700000000000'']"
  by (simp add: drawWall_def Let_def command_init_def toString_example)

text \<open>
  \<open>Viewer.addWall\<close> numbers the walls with its counter: the ids in the registry of a
  reachable state are pairwise different, and a new wall gets an id that no wall of the
  registry has.
\<close>

lemma viewer_ids_distinct: "reachable s \<Longrightarrow> distinct (map id_w (walls s))"
  by (drule reachable_inv) (simp add: viewer_inv_def ids_ok_def)

lemma addWall_id_fresh: "reachable s \<Longrightarrow> id_w (fst (addWall a b s)) \<notin> id_w ` set (walls s)"
  by (drule reachable_inv) (auto simp: viewer_inv_def ids_ok_def wall_id_inj)

text \<open>
  Claim C6. When the viewer is in drawing mode with a gesture in progress,
  \<open>toggleDrawingMode\<close> leaves drawing mode and cancels the gesture: the in-progress
  flag is false, the start point and the preview line are cleared, the preview line has
  been taken out of the scene and disposed of, and the registry and its counter are as
  before. In a state the viewer can reach there was a preview line, and no preview
  line is left in the scene.
\<close>

theorem toggle_cancels_gesture:
  "isDrawingMode s \<Longrightarrow> isDrawing s \<Longrightarrow>
     \<not> isDrawingMode (toggleDrawingMode s)
   \<and> \<not> isDrawing (toggleDrawingMode s)
   \<and> startPoint (toggleDrawingMode s) = None
   \<and> previewLine (toggleDrawingMode s) = None
   \<and> walls (toggleDrawingMode s) = walls s
   \<and> wallCounter (toggleDrawingMode s) = wallCounter s
   \<and> (\<forall>l. previewLine s = Some l \<longrightarrow>
          scene2D (toggleDrawingMode s) = remove1 (handle l) (scene2D s)
        \<and> handle l \<in> disposed (toggleDrawingMode s))
   \<and> (reachable s \<longrightarrow> previewLine s \<noteq> None \<and> scene2D (toggleDrawingMode s) = [])"
proof -
  assume m: "isDrawingMode s" and g: "isDrawing s"
  have t: "toggleDrawingMode s = cleanupDrawing (s\<lparr> isDrawingMode := False \<rparr>)"
    using m by (simp add: toggleDrawingMode_def Let_def)
  have a: "\<not> isDrawingMode (toggleDrawingMode s)" "\<not> isDrawing (toggleDrawingMode s)"
    "startPoint (toggleDrawingMode s) = None" "previewLine (toggleDrawingMode s) = None"
    "walls (toggleDrawingMode s) = walls s" "wallCounter (toggleDrawingMode s) = wallCounter s"
    by (simp_all add: t cleanupDrawing_def removePreview_def split: option.splits)
  have b: "\<forall>l. previewLine s = Some l \<longrightarrow>
          scene2D (toggleDrawingMode s) = remove1 (handle l) (scene2D s)
        \<and> handle l \<in> disposed (toggleDrawingMode s)"
    by (simp add: t cleanupDrawing_def removePreview_def)
  have c: "reachable s \<longrightarrow> previewLine s \<noteq> None \<and> scene2D (toggleDrawingMode s) = []"
  proof
    assume "reachable s"
    then have "drawing_ok s" using reachable_inv by (simp add: viewer_inv_def)
    with g show "previewLine s \<noteq> None \<and> scene2D (toggleDrawingMode s) = []"
      by (auto simp: drawing_ok_def t cleanupDrawing_def removePreview_def split: option.splits)
  qed
  from a b c show ?thesis by blast
qed

text \<open>
  Witness for C6: after one click in drawing mode a gesture is in progress with preview
  line \<open>0\<close>; toggling the mode discards it.
\<close>

theorem toggle_cancels_gesture_witness:
  "reachable (run [MouseDown \<lparr> button = 0, shiftKey = False, pick = None,
                               unprojected = Vector3 1 2 0, rayPlane = None \<rparr>] (viewer_init 800 600))
   \<and> isDrawingMode (run [MouseDown \<lparr> button = 0, shiftKey = False, pick = None,
                               unprojected = Vector3 1 2 0, rayPlane = None \<rparr>] (viewer_init 800 600))
   \<and> isDrawing (run [MouseDown \<lparr> button = 0, shiftKey = False, pick = None,
                               unprojected = Vector3 1 2 0, rayPlane = None \<rparr>] (viewer_init 800 600))
   \<and> previewLine (run [MouseDown \<lparr> button = 0, shiftKey = False, pick = None,
                               unprojected = Vector3 1 2 0, rayPlane = None \<rparr>] (viewer_init 800 600))
       = Some \<lparr> handle = 0, p0 = Vector3 1 2 0, p1 = Vector3 1 2 0 \<rparr>
   \<and> scene2D (run [MouseDown \<lparr> button = 0, shiftKey = False, pick = None,
                               unprojected = Vector3 1 2 0, rayPlane = None \<rparr>] (viewer_init 800 600)) = [0]
   \<and> \<not> isDrawing (toggleDrawingMode (run [MouseDown \<lparr> button = 0, shiftKey = False, pick = None,
                               unprojected = Vector3 1 2 0, rayPlane = None \<rparr>] (viewer_init 800 600)))
   \<and> startPoint (toggleDrawingMode (run [MouseDown \<lparr> button = 0, shiftKey = False, pick = None,
                               unprojected = Vector3 1 2 0, rayPlane = None \<rparr>] (viewer_init 800 600))) = None
   \<and> previewLine (toggleDrawingMode (run [MouseDown \<lparr> button = 0, shiftKey = False, pick = None,
                               unprojected = Vector3 1 2 0, rayPlane = None \<rparr>] (viewer_init 800 600))) = None
   \<and> scene2D (toggleDrawingMode (run [MouseDown \<lparr> button = 0, shiftKey = False, pick = None,
                               unprojected = Vector3 1 2 0, rayPlane = None \<rparr>] (viewer_init 800 600))) = []
   \<and> 0 \<in> disposed (toggleDrawingMode (run [MouseDown \<lparr> button = 0, shiftKey = False, pick = None,
                               unprojected = Vector3 1 2 0, rayPlane = None \<rparr>] (viewer_init 800 600)))
   \<and> walls (toggleDrawingMode (run [MouseDown \<lparr> button = 0, shiftKey = False, pick = None,
                               unprojected = Vector3 1 2 0, rayPlane = None \<rparr>] (viewer_init 800 600))) = []"
proof -
  let ?S = "run [MouseDown \<lparr> button = 0, shiftKey = False, pick = None,
                               unprojected = Vector3 1 2 0, rayPlane = None \<rparr>] (viewer_init 800 600)"
  have r: "reachable ?S" unfolding reachable_def by blast
  have e: "isDrawingMode ?S" "isDrawing ?S"
    "previewLine ?S = Some \<lparr> handle = 0, p0 = Vector3 1 2 0, p1 = Vector3 1 2 0 \<rparr>"
    "scene2D ?S = [0]" "walls ?S = []"
    by (simp_all add: viewer_init_def onMouseDown_def getIntersectionPoint_def drawingClick_def
        newPreview_def)
  from toggle_cancels_gesture [OF e(1,2)] r e
  show ?thesis by simp
qed

text \<open>
  The two places that read the intersection do nothing when there is none.
\<close>

lemma guard_without_point:
  "drawingClick None shift s = Inr s" "updatePreview None s = s"
  by (simp_all add: drawingClick_def updatePreview_def)

text \<open>
  Claim C5, as amended. \<open>getIntersectionPoint\<close> gives no point only in the 3D view,
  when the pick ray misses the plane; in the 2D view it always gives one. A pointer-down
  for which it gives no point is not ignored: it is the selection click of the 3D view.
  With no wall under the pointer it clears the \<open>selected\<close> and \<open>highlighted\<close> flags of
  every wall and the recorded selection; with a wall under the pointer it selects that
  wall and clears the other flags. It raises no error, creates no wall, changes no
  wall's id, end points, length or angle, and leaves the mode, the in-progress flag, the
  start point and the preview as they are. A pointer-move or pointer-up for which there
  is no point changes nothing.
\<close>

theorem no_point_event_is_selection_click:
  "(getIntersectionPoint s e = None) = (\<not> is2D s \<and> rayPlane e = None)
   \<and> (getIntersectionPoint s e = None \<longrightarrow>
        onMouseDown e s = Inr (clickSelect e s)
      \<and> (pick e = None \<longrightarrow>
            clickSelect e s = s\<lparr> walls := map unflag (walls s), selectedWall := None \<rparr>)
      \<and> (\<forall>i. pick e = Some i \<longrightarrow>
            clickSelect e s =
              s\<lparr> walls := map (\<lambda>w. w\<lparr> selected := Some (id_w w = i), highlighted := Some False \<rparr>)
                              (walls s),
                 selectedWall := (if i \<in> id_w ` set (walls s) then Some i else None) \<rparr>)
      \<and> length (walls (clickSelect e s)) = length (walls s)
      \<and> map wall_core (walls (clickSelect e s)) = map wall_core (walls s)
      \<and> wallCounter (clickSelect e s) = wallCounter s
      \<and> isDrawingMode (clickSelect e s) = isDrawingMode s
      \<and> isDrawing (clickSelect e s) = isDrawing s
      \<and> startPoint (clickSelect e s) = startPoint s
      \<and> previewLine (clickSelect e s) = previewLine s
      \<and> scene2D (clickSelect e s) = scene2D s
      \<and> onMouseMove e s = s
      \<and> onMouseUp e s = s)"
proof -
  have g: "(getIntersectionPoint s e = None) = (\<not> is2D s \<and> rayPlane e = None)"
    by (simp add: getIntersectionPoint_def)
  have c1: "pick e = None \<longrightarrow>
            clickSelect e s = s\<lparr> walls := map unflag (walls s), selectedWall := None \<rparr>"
    by (simp add: clickSelect_def clearWallStates_def unflag_def)
  have c2: "\<forall>i. pick e = Some i \<longrightarrow>
            clickSelect e s =
              s\<lparr> walls := map (\<lambda>w. w\<lparr> selected := Some (id_w w = i), highlighted := Some False \<rparr>)
                              (walls s),
                 selectedWall := (if i \<in> id_w ` set (walls s) then Some i else None) \<rparr>"
    by (simp add: clickSelect_def selectWall_eq)
  have m: "map wall_core (walls (clickSelect e s)) = map wall_core (walls s)"
    by (simp add: clickSelect_def core_selectWall core_clearWallStates split: option.splits)
  then have l: "length (walls (clickSelect e s)) = length (walls s)"
    by (metis length_map)
  have f: "wallCounter (clickSelect e s) = wallCounter s"
    "isDrawingMode (clickSelect e s) = isDrawingMode s"
    "isDrawing (clickSelect e s) = isDrawing s"
    "startPoint (clickSelect e s) = startPoint s"
    "previewLine (clickSelect e s) = previewLine s"
    "scene2D (clickSelect e s) = scene2D s"
    by (simp_all add: clickSelect_def selectWall_eq clearWallStates_def split: option.splits)
  have h: "getIntersectionPoint s e = None \<longrightarrow> onMouseDown e s = Inr (clickSelect e s)
      \<and> onMouseMove e s = s"
    by (simp add: getIntersectionPoint_def onMouseDown_def onMouseMove_def split: if_splits)
  have u: "onMouseUp e s = s" by (simp add: onMouseUp_def)
  from g c1 c2 m l f h u show ?thesis by blast
qed

text \<open>
  Counterexample to C5 as stated: a viewer whose one wall is selected, switched to the
  3D view, and a pointer-down whose pick ray hits no wall and misses the plane. There
  is no intersection point, and the click deselects the wall and forgets the selection.
\<close>

theorem no_point_event_counterexample:
  "getIntersectionPoint
       (run [AddWall (Vector3 0 0 0) (Vector3 3 4 0), WallListClick (Some ''wall_0''), SetView False]
            (viewer_init 800 600))
       \<lparr> button = 0, shiftKey = False, pick = None, unprojected = Vector3 1 2 0, rayPlane = None \<rparr> = None
   \<and> map selected (walls (run [AddWall (Vector3 0 0 0) (Vector3 3 4 0), WallListClick (Some ''wall_0''), SetView False]
            (viewer_init 800 600))) = [Some True]
   \<and> selectedWall (run [AddWall (Vector3 0 0 0) (Vector3 3 4 0), WallListClick (Some ''wall_0''), SetView False]
            (viewer_init 800 600)) = Some ''wall_0''
   \<and> (\<exists>s'. onMouseDown \<lparr> button = 0, shiftKey = False, pick = None, unprojected = Vector3 1 2 0, rayPlane = None \<rparr>
               (run [AddWall (Vector3 0 0 0) (Vector3 3 4 0), WallListClick (Some ''wall_0''), SetView False]
                    (viewer_init 800 600)) = Inr s'
          \<and> map selected (walls s') = [Some False] \<and> selectedWall s' = None)
   \<and> onMouseDown \<lparr> button = 0, shiftKey = False, pick = None, unprojected = Vector3 1 2 0, rayPlane = None \<rparr>
         (run [AddWall (Vector3 0 0 0) (Vector3 3 4 0), WallListClick (Some ''wall_0''), SetView False]
              (viewer_init 800 600))
       \<noteq> Inr (run [AddWall (Vector3 0 0 0) (Vector3 3 4 0), WallListClick (Some ''wall_0''), SetView False]
              (viewer_init 800 600))"
proof -
  define S where "S = run [AddWall (Vector3 0 0 0) (Vector3 3 4 0), WallListClick (Some ''wall_0''), SetView False]
            (viewer_init 800 600)"
  define e where "e = \<lparr> button = 0, shiftKey = False, pick = None, unprojected = Vector3 1 2 0, rayPlane = None \<rparr>"
  have a: "is2D S = False" "map selected (walls S) = [Some True]" "selectedWall S = Some ''wall_0''"
    by (simp_all add: S_def setView_def onWallListItemClick_def selectWall_eq viewer_init_def
        wall_id_small addWall_def Let_def)
  have p: "pick e = None" "rayPlane e = None" by (simp_all add: e_def)
  have g: "getIntersectionPoint S e = None"
    using a(1) p by (simp add: getIntersectionPoint_def)
  have d: "onMouseDown e S = Inr (clearWallStates S)"
    using a(1) p by (simp add: onMouseDown_def clickSelect_def)
  have b: "map selected (walls (clearWallStates S)) = [Some False]"
    "selectedWall (clearWallStates S) = None"
    by (simp_all add: S_def clearWallStates_def setView_def onWallListItemClick_def selectWall_eq
        viewer_init_def wall_id_small addWall_def Let_def)
  have n: "clearWallStates S \<noteq> S"
  proof
    assume "clearWallStates S = S"
    then have "selectedWall (clearWallStates S) = selectedWall S" by (rule arg_cong)
    with a(3) b(2) show False by simp
  qed
  have x: "\<exists>s'. onMouseDown e S = Inr s' \<and> map selected (walls s') = [Some False] \<and> selectedWall s' = None"
    using d b by (intro exI [of _ "clearWallStates S"]) simp
  have y: "onMouseDown e S \<noteq> Inr S" using d n by simp
  have "getIntersectionPoint S e = None \<and> map selected (walls S) = [Some True]
      \<and> selectedWall S = Some ''wall_0''
      \<and> (\<exists>s'. onMouseDown e S = Inr s' \<and> map selected (walls s') = [Some False] \<and> selectedWall s' = None)
      \<and> onMouseDown e S \<noteq> Inr S"
    using g a(2,3) x y by (intro conjI)
  then show ?thesis unfolding S_def e_def .
qed


text \<open>
  Witness for C5: the state and the event of the counterexample.
\<close>

theorem no_point_event_is_selection_click_witness:
  "getIntersectionPoint
       (run [AddWall (Vector3 0 0 0) (Vector3 3 4 0), WallListClick (Some ''wall_0''), SetView False]
            (viewer_init 800 600))
       \<lparr> button = 0, shiftKey = False, pick = None, unprojected = Vector3 1 2 0, rayPlane = None \<rparr> = None
   \<and> \<not> is2D (run [AddWall (Vector3 0 0 0) (Vector3 3 4 0), WallListClick (Some ''wall_0''), SetView False]
            (viewer_init 800 600))
   \<and> map selected (walls (run [AddWall (Vector3 0 0 0) (Vector3 3 4 0), WallListClick (Some ''wall_0''), SetView False]
            (viewer_init 800 600))) = [Some True]
   \<and> onMouseDown \<lparr> button = 0, shiftKey = False, pick = None, unprojected = Vector3 1 2 0, rayPlane = None \<rparr>
         (run [AddWall (Vector3 0 0 0) (Vector3 3 4 0), WallListClick (Some ''wall_0''), SetView False]
              (viewer_init 800 600))
       = Inr ((run [AddWall (Vector3 0 0 0) (Vector3 3 4 0), WallListClick (Some ''wall_0''), SetView False]
                   (viewer_init 800 600))
               \<lparr> walls := map unflag (walls (run [AddWall (Vector3 0 0 0) (Vector3 3 4 0),
                                                   WallListClick (Some ''wall_0''), SetView False]
                                                  (viewer_init 800 600))),
                 selectedWall := None \<rparr>)
   \<and> map selected (map unflag (walls (run [AddWall (Vector3 0 0 0) (Vector3 3 4 0),
                                            WallListClick (Some ''wall_0''), SetView False]
                                           (viewer_init 800 600)))) = [Some False]
   \<and> onMouseMove \<lparr> button = 0, shiftKey = False, pick = None, unprojected = Vector3 1 2 0, rayPlane = None \<rparr>
         (run [AddWall (Vector3 0 0 0) (Vector3 3 4 0), WallListClick (Some ''wall_0''), SetView False]
              (viewer_init 800 600))
       = run [AddWall (Vector3 0 0 0) (Vector3 3 4 0), WallListClick (Some ''wall_0''), SetView False]
             (viewer_init 800 600)"
proof -
  define S where "S = run [AddWall (Vector3 0 0 0) (Vector3 3 4 0), WallListClick (Some ''wall_0''), SetView False]
            (viewer_init 800 600)"
  define e where "e = \<lparr> button = 0, shiftKey = False, pick = None, unprojected = Vector3 1 2 0, rayPlane = None \<rparr>"
  have a: "\<not> is2D S" "map selected (walls S) = [Some True]"
    by (simp_all add: S_def setView_def onWallListItemClick_def selectWall_eq viewer_init_def
        wall_id_small addWall_def Let_def)
  have p: "pick e = None" "rayPlane e = None" by (simp_all add: e_def)
  note T = no_point_event_is_selection_click [of S e]
  from T a(1) p(2) have g: "getIntersectionPoint S e = None" by blast
  from T g p(1) have d: "onMouseDown e S = Inr (S\<lparr> walls := map unflag (walls S), selectedWall := None \<rparr>)"
    by simp
  from T g have m: "onMouseMove e S = S" by blast
  have u: "map selected (map unflag (walls S)) = [Some False]"
    using a(2) by (cases "walls S") (auto simp: comp_def)
  have "getIntersectionPoint S e = None \<and> \<not> is2D S \<and> map selected (walls S) = [Some True]
      \<and> onMouseDown e S = Inr (S\<lparr> walls := map unflag (walls S), selectedWall := None \<rparr>)
      \<and> map selected (map unflag (walls S)) = [Some False]
      \<and> onMouseMove e S = S"
    using g a d u m by (intro conjI)
  then show ?thesis unfolding S_def e_def .
qed

text \<open>
  Selecting the wall with id \<open>i\<close> and deleting the selection removes the walls with
  that id and clears both flags of every wall that stays.
\<close>

lemma selectAndDelete_walls:
  "walls (selectAndDelete i s) = map unflag (filter (\<lambda>w. id_w w \<noteq> i) (walls s))"
proof -
  have "map unflag (filter (\<lambda>w. \<not> truthy (selected w)) (walls (selectWall i s)))
        = map unflag (filter (\<lambda>w. id_w w \<noteq> i) (walls s))"
    unfolding walls_selectWall
    by (induction "walls s") (auto simp: truthy_def unflag_def filter_map comp_def)
  then show ?thesis by (simp add: selectAndDelete_def deleteSelectedWalls_walls)
qed

text \<open>
  Claim C8, as amended. In a reachable state, adding a wall and then removing it
  (selecting the id returned and deleting the selection) brings the registry back to its
  former size and order, and every wall keeps its id, end points, length and angle; the
  \<open>selected\<close> and \<open>highlighted\<close> flags of the walls that stay are cleared, so the
  registry is exactly as before when no flag was set. Removing an id that no wall has
  removes nothing and clears the flags as well.
\<close>

theorem add_then_remove:
  "reachable s \<Longrightarrow>
     walls (selectAndDelete (id_w (fst (addWall a b s))) (snd (addWall a b s))) = map unflag (walls s)
   \<and> length (walls (selectAndDelete (id_w (fst (addWall a b s))) (snd (addWall a b s)))) = length (walls s)
   \<and> map wall_core (walls (selectAndDelete (id_w (fst (addWall a b s))) (snd (addWall a b s))))
       = map wall_core (walls s)
   \<and> ((\<forall>w\<in>set (walls s). selected w = Some False \<and> highlighted w = Some False) \<longrightarrow>
        walls (selectAndDelete (id_w (fst (addWall a b s))) (snd (addWall a b s))) = walls s)
   \<and> (i \<notin> id_w ` set (walls s) \<longrightarrow> walls (selectAndDelete i s) = map unflag (walls s))"
proof -
  assume r: "reachable s"
  let ?i = "id_w (fst (addWall a b s))"
  from addWall_id_fresh [OF r, of a b] have "\<forall>w\<in>set (walls s). id_w w \<noteq> ?i" by force
  then have f: "filter (\<lambda>w. id_w w \<noteq> ?i) (walls s) = walls s" by simp
  have w: "walls (selectAndDelete ?i (snd (addWall a b s))) = map unflag (walls s)"
    by (simp add: selectAndDelete_walls f del: addWall_fields(7))
  have u: "(\<forall>w\<in>set (walls s). selected w = Some False \<and> highlighted w = Some False)
            \<longrightarrow> map unflag (walls s) = walls s"
    by (simp add: unflag_def map_idI)
  have n: "i \<notin> id_w ` set (walls s) \<longrightarrow> walls (selectAndDelete i s) = map unflag (walls s)"
  proof
    assume "i \<notin> id_w ` set (walls s)"
    then have "\<forall>w\<in>set (walls s). id_w w \<noteq> i" by force
    then have "filter (\<lambda>w. id_w w \<noteq> i) (walls s) = walls s" by simp
    then show "walls (selectAndDelete i s) = map unflag (walls s)"
      by (simp add: selectAndDelete_walls)
  qed
  from w u n show ?thesis by (simp add: comp_def)
qed


text \<open>
  Witness for C8: a viewer with one wall and no flag set; a second wall is added and
  removed again, and the absent id \<open>wall_7\<close> is removed.
\<close>

theorem add_then_remove_witness:
  "reachable (run [AddWall (Vector3 0 0 0) (Vector3 1 0 0)] (viewer_init 800 600))
   \<and> id_w (fst (addWall (Vector3 0 0 0) (Vector3 3 4 0)
         (run [AddWall (Vector3 0 0 0) (Vector3 1 0 0)] (viewer_init 800 600)))) = ''wall_1''
   \<and> map id_w (walls (run [AddWall (Vector3 0 0 0) (Vector3 1 0 0)] (viewer_init 800 600))) = [''wall_0'']
   \<and> walls (selectAndDelete ''wall_1'' (snd (addWall (Vector3 0 0 0) (Vector3 3 4 0)
         (run [AddWall (Vector3 0 0 0) (Vector3 1 0 0)] (viewer_init 800 600)))))
       = walls (run [AddWall (Vector3 0 0 0) (Vector3 1 0 0)] (viewer_init 800 600))
   \<and> walls (selectAndDelete ''wall_7'' (run [AddWall (Vector3 0 0 0) (Vector3 1 0 0)] (viewer_init 800 600)))
       = walls (run [AddWall (Vector3 0 0 0) (Vector3 1 0 0)] (viewer_init 800 600))"
proof -
  let ?S = "run [AddWall (Vector3 0 0 0) (Vector3 1 0 0)] (viewer_init 800 600)"
  have r: "reachable ?S" unfolding reachable_def by blast
  have i: "id_w (fst (addWall (Vector3 0 0 0) (Vector3 3 4 0) ?S)) = ''wall_1''"
    "map id_w (walls ?S) = [''wall_0'']"
    by (simp_all add: viewer_init_def wall_id_small)
  have f: "\<forall>w\<in>set (walls ?S). selected w = Some False \<and> highlighted w = Some False"
    by (simp add: viewer_init_def)
  have u: "map unflag (walls ?S) = walls ?S"
    by (simp add: viewer_init_def unflag_def addWall_def Let_def)
  have a: "''wall_7'' \<notin> id_w ` set (walls ?S)"
    by (simp add: viewer_init_def wall_id_small)
  from add_then_remove [OF r, of "Vector3 0 0 0" "Vector3 3 4 0" "''wall_7''"] i f u a
  show ?thesis using r by simp
qed

text \<open>
  Counterexample to C8 as stated: the first wall is selected; after a second wall has
  been added and removed, and also after the absent id \<open>wall_7\<close> has been removed,
  the first wall is no longer selected, so the registry is not as it was.
\<close>

theorem add_then_remove_counterexample:
  "map selected (walls (run [AddWall (Vector3 0 0 0) (Vector3 1 0 0), WallListClick (Some ''wall_0'')]
                         (viewer_init 800 600))) = [Some True]
   \<and> id_w (fst (addWall (Vector3 0 0 0) (Vector3 3 4 0)
         (run [AddWall (Vector3 0 0 0) (Vector3 1 0 0), WallListClick (Some ''wall_0'')]
              (viewer_init 800 600)))) = ''wall_1''
   \<and> map selected (walls (selectAndDelete ''wall_1'' (snd (addWall (Vector3 0 0 0) (Vector3 3 4 0)
         (run [AddWall (Vector3 0 0 0) (Vector3 1 0 0), WallListClick (Some ''wall_0'')]
              (viewer_init 800 600)))))) = [Some False]
   \<and> map selected (walls (selectAndDelete ''wall_7''
         (run [AddWall (Vector3 0 0 0) (Vector3 1 0 0), WallListClick (Some ''wall_0'')]
              (viewer_init 800 600)))) = [Some False]"
  by (simp add: selectAndDelete_walls onWallListItemClick_def selectWall_eq viewer_init_def
      wall_id_small addWall_def Let_def)

text \<open>
  Claim C7, as amended. In the viewer, the second click of a gesture commits the wall;
  with shift held the gesture stays in progress, the start point is the end point of
  the wall just committed, and a new preview line from that point to itself is in the
  scene at once; without shift the start point and the preview are discarded and no
  gesture is in progress. In the wall command, releasing the button commits the wall;
  with shift held the command keeps drawing with the start point (and the last end
  point) at the end point of the wall just committed, but it has no preview until the
  next pointer move creates one from that point; without shift the start point is
  discarded and drawing ends.
\<close>

theorem chain_commit:
  "is2D s \<Longrightarrow> isDrawingMode s \<Longrightarrow> isDrawing s \<Longrightarrow> startPoint s = Some a \<Longrightarrow> button e = 0 \<Longrightarrow>
   drawing c \<Longrightarrow> cmd_startPoint c = Some a' \<Longrightarrow>
     (shiftKey e \<longrightarrow>
        (\<exists>s'. onMouseDown e s = Inr s'
           \<and> walls s' = walls s @ [fst (addWall a (Vector3 (vx (unprojected e)) (vy (unprojected e)) 0) s)]
           \<and> isDrawingMode s' \<and> isDrawing s'
           \<and> startPoint s' = Some (Vector3 (vx (unprojected e)) (vy (unprojected e)) 0)
           \<and> startPoint s' = Some (end_w (last (walls s')))
           \<and> previewLine s' = Some \<lparr> handle = nextObj s,
                                      p0 = Vector3 (vx (unprojected e)) (vy (unprojected e)) 0,
                                      p1 = Vector3 (vx (unprojected e)) (vy (unprojected e)) 0 \<rparr>
           \<and> nextObj s \<in> set (scene2D s')))
   \<and> (\<not> shiftKey e \<longrightarrow>
        (\<exists>s'. onMouseDown e s = Inr s'
           \<and> walls s' = walls s @ [fst (addWall a (Vector3 (vx (unprojected e)) (vy (unprojected e)) 0) s)]
           \<and> \<not> isDrawing s' \<and> startPoint s' = None \<and> previewLine s' = None))
   \<and> doc_walls (document (onMouseUp_cmd u t 0 True c))
       = doc_walls (document c) @ [fst (drawWall t a' (u (mouse c)) (document c))]
   \<and> drawing (onMouseUp_cmd u t 0 True c)
   \<and> isCreatingSeries (onMouseUp_cmd u t 0 True c)
   \<and> cmd_startPoint (onMouseUp_cmd u t 0 True c) = Some (u (mouse c))
   \<and> lastEndPoint (onMouseUp_cmd u t 0 True c) = Some (u (mouse c))
   \<and> previewWall (onMouseUp_cmd u t 0 True c) = None
   \<and> previewWall (onMouseMove_cmd u ndc (onMouseUp_cmd u t 0 True c))
       = Some \<lparr> handle = cmd_nextObj c, p0 = u (mouse c), p1 = u ndc \<rparr>
   \<and> doc_walls (document (onMouseUp_cmd u t 0 False c))
       = doc_walls (document c) @ [fst (drawWall t a' (u (mouse c)) (document c))]
   \<and> \<not> drawing (onMouseUp_cmd u t 0 False c)
   \<and> \<not> isCreatingSeries (onMouseUp_cmd u t 0 False c)
   \<and> cmd_startPoint (onMouseUp_cmd u t 0 False c) = None
   \<and> previewWall (onMouseUp_cmd u t 0 False c) = None"
proof -
  assume v: "is2D s" "isDrawingMode s" "isDrawing s" "startPoint s = Some a" "button e = 0"
    and k: "drawing c" "cmd_startPoint c = Some a'"
  let ?p = "Vector3 (vx (unprojected e)) (vy (unprojected e)) 0"
  have d: "onMouseDown e s = drawingClick (Some ?p) (shiftKey e) s"
    using v by (simp add: onMouseDown_def getIntersectionPoint_def)
  have 1: "shiftKey e \<longrightarrow>
        (\<exists>s'. onMouseDown e s = Inr s'
           \<and> walls s' = walls s @ [fst (addWall a ?p s)]
           \<and> isDrawingMode s' \<and> isDrawing s'
           \<and> startPoint s' = Some ?p
           \<and> startPoint s' = Some (end_w (last (walls s')))
           \<and> previewLine s' = Some \<lparr> handle = nextObj s, p0 = ?p, p1 = ?p \<rparr>
           \<and> nextObj s \<in> set (scene2D s'))"
    using v unfolding d
    by (simp add: drawingClick_def Let_def newPreview_def removePreview_def split: option.splits)
  have 2: "\<not> shiftKey e \<longrightarrow>
        (\<exists>s'. onMouseDown e s = Inr s'
           \<and> walls s' = walls s @ [fst (addWall a ?p s)]
           \<and> \<not> isDrawing s' \<and> startPoint s' = None \<and> previewLine s' = None)"
    using v unfolding d
    by (simp add: drawingClick_def Let_def removePreview_def split: option.splits)
  have 3: "doc_walls (document (onMouseUp_cmd u t 0 True c))
       = doc_walls (document c) @ [fst (drawWall t a' (u (mouse c)) (document c))]"
    "drawing (onMouseUp_cmd u t 0 True c)"
    "isCreatingSeries (onMouseUp_cmd u t 0 True c)"
    "cmd_startPoint (onMouseUp_cmd u t 0 True c) = Some (u (mouse c))"
    "lastEndPoint (onMouseUp_cmd u t 0 True c) = Some (u (mouse c))"
    "previewWall (onMouseUp_cmd u t 0 True c) = None"
    "cmd_nextObj (onMouseUp_cmd u t 0 True c) = cmd_nextObj c"
    using k
    by (simp_all add: onMouseUp_cmd_def Let_def execute_def drawWall_def removeObject_def
        split: option.splits)
  have 4: "previewWall (onMouseMove_cmd u ndc (onMouseUp_cmd u t 0 True c))
       = Some \<lparr> handle = cmd_nextObj c, p0 = u (mouse c), p1 = u ndc \<rparr>"
    using 3 by (simp add: onMouseMove_cmd_def Let_def)
  have 5: "doc_walls (document (onMouseUp_cmd u t 0 False c))
       = doc_walls (document c) @ [fst (drawWall t a' (u (mouse c)) (document c))]"
    "\<not> drawing (onMouseUp_cmd u t 0 False c)"
    "\<not> isCreatingSeries (onMouseUp_cmd u t 0 False c)"
    "cmd_startPoint (onMouseUp_cmd u t 0 False c) = None"
    "previewWall (onMouseUp_cmd u t 0 False c) = None"
    using k
    by (simp_all add: onMouseUp_cmd_def Let_def execute_def drawWall_def removeObject_def
        split: option.splits)
  from 1 2 3 4 5 show ?thesis by blast
qed

text \<open>
  Counterexample to C7 as stated: the wall command after a press at \<open>(0, 0)\<close> and a
  move to \<open>(3, 4)\<close>; the release with shift held commits the wall and keeps drawing
  from \<open>(3, 4, 0)\<close>, and there is no preview: none in the command, none in the scene.
\<close>

theorem chain_commit_counterexample:
  "drawing (onMouseMove_cmd planar (Vector2 3 4) (onMouseDown_cmd planar 0 command_init))
   \<and> cmd_startPoint (onMouseMove_cmd planar (Vector2 3 4) (onMouseDown_cmd planar 0 command_init))
       = Some (Vector3 0 0 0)
   \<and> previewWall (onMouseMove_cmd planar (Vector2 3 4) (onMouseDown_cmd planar 0 command_init))
       = Some \<lparr> handle = 0, p0 = Vector3 0 0 0, p1 = Vector3 3 4 0 \<rparr>
   \<and> drawing (onMouseUp_cmd planar 1700000000000 0 True
         (onMouseMove_cmd planar (Vector2 3 4) (onMouseDown_cmd planar 0 command_init)))
   \<and> cmd_startPoint (onMouseUp_cmd planar 1700000000000 0 True
         (onMouseMove_cmd planar (Vector2 3 4) (onMouseDown_cmd planar 0 command_init)))
       = Some (Vector3 3 4 0)
   \<and> map end_w (doc_walls (document (onMouseUp_cmd planar 1700000000000 0 True
         (onMouseMove_cmd planar (Vector2 3 4) (onMouseDown_cmd planar 0 command_init)))))
       = [Vector3 3 4 0]
   \<and> previewWall (onMouseUp_cmd planar 1700000000000 0 True
         (onMouseMove_cmd planar (Vector2 3 4) (onMouseDown_cmd planar 0 command_init))) = None
   \<and> doc_scene (document (onMouseUp_cmd planar 1700000000000 0 True
         (onMouseMove_cmd planar (Vector2 3 4) (onMouseDown_cmd planar 0 command_init)))) = []"
  by (simp add: onMouseUp_cmd_def onMouseMove_cmd_def onMouseDown_cmd_def command_init_def
      planar_def Let_def execute_def drawWall_def removeObject_def addObject_def)

text \<open>
  Witness for C7: a viewer after a first click at \<open>(1, 2)\<close> that gets a second click
  at \<open>(4, 6)\<close> with shift held, and the wall command of the counterexample.
\<close>

theorem chain_commit_witness:
  "is2D (run [MouseDown \<lparr> button = 0, shiftKey = False, pick = None,
                          unprojected = Vector3 1 2 0, rayPlane = None \<rparr>] (viewer_init 800 600))
   \<and> isDrawingMode (run [MouseDown \<lparr> button = 0, shiftKey = False, pick = None,
                          unprojected = Vector3 1 2 0, rayPlane = None \<rparr>] (viewer_init 800 600))
   \<and> isDrawing (run [MouseDown \<lparr> button = 0, shiftKey = False, pick = None,
                          unprojected = Vector3 1 2 0, rayPlane = None \<rparr>] (viewer_init 800 600))
   \<and> startPoint (run [MouseDown \<lparr> button = 0, shiftKey = False, pick = None,
                          unprojected = Vector3 1 2 0, rayPlane = None \<rparr>] (viewer_init 800 600))
       = Some (Vector3 1 2 0)
   \<and> drawing (onMouseMove_cmd planar (Vector2 3 4) (onMouseDown_cmd planar 0 command_init))
   \<and> cmd_startPoint (onMouseMove_cmd planar (Vector2 3 4) (onMouseDown_cmd planar 0 command_init))
       = Some (Vector3 0 0 0)
   \<and> (\<exists>s'. onMouseDown \<lparr> button = 0, shiftKey = True, pick = None,
                           unprojected = Vector3 4 6 0, rayPlane = None \<rparr>
               (run [MouseDown \<lparr> button = 0, shiftKey = False, pick = None,
                          unprojected = Vector3 1 2 0, rayPlane = None \<rparr>] (viewer_init 800 600)) = Inr s'
           \<and> isDrawing s' \<and> startPoint s' = Some (Vector3 4 6 0)
           \<and> startPoint s' = Some (end_w (last (walls s')))
           \<and> previewLine s' = Some \<lparr> handle = 1, p0 = Vector3 4 6 0, p1 = Vector3 4 6 0 \<rparr>
           \<and> 1 \<in> set (scene2D s'))
   \<and> cmd_startPoint (onMouseUp_cmd planar 1700000000000 0 True
         (onMouseMove_cmd planar (Vector2 3 4) (onMouseDown_cmd planar 0 command_init)))
       = Some (Vector3 3 4 0)
   \<and> previewWall (onMouseMove_cmd planar (Vector2 5 5) (onMouseUp_cmd planar 1700000000000 0 True
         (onMouseMove_cmd planar (Vector2 3 4) (onMouseDown_cmd planar 0 command_init))))
       = Some \<lparr> handle = 1, p0 = Vector3 3 4 0, p1 = Vector3 5 5 0 \<rparr>
   \<and> \<not> drawing (onMouseUp_cmd planar 1700000000000 0 False
         (onMouseMove_cmd planar (Vector2 3 4) (onMouseDown_cmd planar 0 command_init)))"
proof -
  let ?S = "run [MouseDown \<lparr> button = 0, shiftKey = False, pick = None,
                          unprojected = Vector3 1 2 0, rayPlane = None \<rparr>] (viewer_init 800 600)"
  let ?e = "\<lparr> button = 0, shiftKey = True, pick = None,
                           unprojected = Vector3 4 6 0, rayPlane = None \<rparr>"
  let ?C = "onMouseMove_cmd planar (Vector2 3 4) (onMouseDown_cmd planar 0 command_init)"
  have s: "is2D ?S" "isDrawingMode ?S" "isDrawing ?S" "startPoint ?S = Some (Vector3 1 2 0)"
    "nextObj ?S = 1"
    by (simp_all add: viewer_init_def onMouseDown_def getIntersectionPoint_def drawingClick_def
        newPreview_def)
  have e: "button ?e = 0" "shiftKey ?e" "unprojected ?e = Vector3 4 6 0" by simp_all
  have c: "drawing ?C" "cmd_startPoint ?C = Some (Vector3 0 0 0)" "mouse ?C = Vector2 3 4"
    "cmd_nextObj ?C = 1"
    by (simp_all add: onMouseMove_cmd_def onMouseDown_cmd_def command_init_def planar_def Let_def)
  note T = chain_commit [OF s(1-4) e(1) c(1,2), of planar 1700000000000 "Vector2 5 5"]
  from T e(2) obtain s' where d: "onMouseDown ?e ?S = Inr s'" "isDrawing s'"
    "startPoint s' = Some (Vector3 (vx (unprojected ?e)) (vy (unprojected ?e)) 0)"
    "startPoint s' = Some (end_w (last (walls s')))"
    "previewLine s' = Some \<lparr> handle = nextObj ?S,
                               p0 = Vector3 (vx (unprojected ?e)) (vy (unprojected ?e)) 0,
                               p1 = Vector3 (vx (unprojected ?e)) (vy (unprojected ?e)) 0 \<rparr>"
    "nextObj ?S \<in> set (scene2D s')"
    by blast
  have x: "\<exists>s'. onMouseDown ?e ?S = Inr s'
           \<and> isDrawing s' \<and> startPoint s' = Some (Vector3 4 6 0)
           \<and> startPoint s' = Some (end_w (last (walls s')))
           \<and> previewLine s' = Some \<lparr> handle = 1, p0 = Vector3 4 6 0, p1 = Vector3 4 6 0 \<rparr>
           \<and> 1 \<in> set (scene2D s')"
    using d unfolding s(5) e(3) by (intro exI [of _ s']) (simp del: run.simps)
  from T have y: "cmd_startPoint (onMouseUp_cmd planar 1700000000000 0 True ?C) = Some (planar (mouse ?C))"
    "previewWall (onMouseMove_cmd planar (Vector2 5 5) (onMouseUp_cmd planar 1700000000000 0 True ?C))
       = Some \<lparr> handle = cmd_nextObj ?C, p0 = planar (mouse ?C), p1 = planar (Vector2 5 5) \<rparr>"
    "\<not> drawing (onMouseUp_cmd planar 1700000000000 0 False ?C)"
    by blast+
  have z: "cmd_startPoint (onMouseUp_cmd planar 1700000000000 0 True ?C) = Some (Vector3 3 4 0)"
    "previewWall (onMouseMove_cmd planar (Vector2 5 5) (onMouseUp_cmd planar 1700000000000 0 True ?C))
       = Some \<lparr> handle = 1, p0 = Vector3 3 4 0, p1 = Vector3 5 5 0 \<rparr>"
    using y unfolding c(3,4) by (simp_all add: planar_def)
  from s(1-4) c(1,2) x z y(3) show ?thesis by blast
qed

text \<open>The box of a list of points holds each of the points.\<close>

lemma expandByPoint_Box2:
  "\<exists>mn mx. expandByPoint b p = Box2 mn mx \<and> v2x mn \<le> v2x mx \<and> v2y mn \<le> v2y mx \<and> containsPoint (Box2 mn mx) p"
  if "b = EmptyBox \<or> (\<exists>mn mx. b = Box2 mn mx \<and> v2x mn \<le> v2x mx \<and> v2y mn \<le> v2y mx)"
  using that by (cases b) auto

lemma expandByPoint_mono:
  "containsPoint b q \<Longrightarrow> containsPoint (expandByPoint b p) q"
  by (cases b) auto

lemma foldl_expandByPoint_mono:
  "containsPoint b q \<Longrightarrow> containsPoint (foldl expandByPoint b ps) q"
  by (induction ps arbitrary: b) (auto simp: expandByPoint_mono)

lemma foldl_expandByPoint_contains:
  "q \<in> set ps \<Longrightarrow> b = EmptyBox \<or> (\<exists>mn mx. b = Box2 mn mx \<and> v2x mn \<le> v2x mx \<and> v2y mn \<le> v2y mx)
   \<Longrightarrow> containsPoint (foldl expandByPoint b ps) q"
proof (induction ps arbitrary: b)
  case Nil
  then show ?case by simp
next
  case (Cons p ps)
  from expandByPoint_Box2 [OF Cons.prems(2), of p]
  obtain mn mx where e: "expandByPoint b p = Box2 mn mx" "v2x mn \<le> v2x mx" "v2y mn \<le> v2y mx"
    "containsPoint (Box2 mn mx) p" by blast
  show ?case
  proof (cases "q = p")
    case True
    with e(1,4) show ?thesis by (simp add: foldl_expandByPoint_mono)
  next
    case False
    with Cons.prems(1) have "q \<in> set ps" by simp
    then show ?thesis using e(1-3) by (simp add: Cons.IH)
  qed
qed

lemma foldl_expandByPoint_proper:
  "\<exists>mn mx. b = Box2 mn mx \<and> v2x mn \<le> v2x mx \<and> v2y mn \<le> v2y mx \<Longrightarrow>
   \<exists>mn mx. foldl expandByPoint b ps = Box2 mn mx \<and> v2x mn \<le> v2x mx \<and> v2y mn \<le> v2y mx"
proof (induction ps arbitrary: b)
  case Nil
  then show ?case by simp
next
  case (Cons p ps)
  from Cons.prems have "b = EmptyBox \<or> (\<exists>mn mx. b = Box2 mn mx \<and> v2x mn \<le> v2x mx \<and> v2y mn \<le> v2y mx)"
    by blast
  from expandByPoint_Box2 [OF this, of p]
  have "\<exists>mn mx. expandByPoint b p = Box2 mn mx \<and> v2x mn \<le> v2x mx \<and> v2y mn \<le> v2y mx"
    by blast
  from Cons.IH [OF this] show ?case by simp
qed

text \<open>
  The target box of a registry that is not empty is a proper box, and it holds both end
  points of every wall.
\<close>

lemma targetBox_bounds:
  assumes "ws \<noteq> []"
  shows "\<exists>mn mx. targetBox ws = Box2 mn mx \<and> v2x mn \<le> v2x mx \<and> v2y mn \<le> v2y mx
           \<and> (\<forall>w\<in>set ws. containsPoint (Box2 mn mx) (Vector2 (vx (start_w w)) (vy (start_w w)))
                         \<and> containsPoint (Box2 mn mx) (Vector2 (vx (end_w w)) (vy (end_w w))))"
proof -
  let ?ps = "map (\<lambda>p. Vector2 (vx p) (vy p)) (wallPositions ws)"
  from assms obtain w0 ws' where ws: "ws = w0 # ws'" by (cases ws) auto
  then obtain p0 ps' where ps: "?ps = p0 # ps'" by (simp add: wallPositions_def)
  have "\<exists>mn mx. expandByPoint EmptyBox p0 = Box2 mn mx \<and> v2x mn \<le> v2x mx \<and> v2y mn \<le> v2y mx"
    by simp
  from foldl_expandByPoint_proper [OF this, of ps']
  obtain mn mx where b: "setFromPoints ?ps = Box2 mn mx" "v2x mn \<le> v2x mx" "v2y mn \<le> v2y mx"
    unfolding setFromPoints_def ps by auto
  have c: "\<forall>q\<in>set ?ps. containsPoint (Box2 mn mx) q"
    using foldl_expandByPoint_contains [of _ ?ps EmptyBox] b(1) by (simp add: setFromPoints_def)
  let ?mn = "Vector2 (v2x mn - (v2x mx - v2x mn) * (1 / 10)) (v2y mn - (v2y mx - v2y mn) * (1 / 10))"
  let ?mx = "Vector2 (v2x mx + (v2x mx - v2x mn) * (1 / 10)) (v2y mx + (v2y mx - v2y mn) * (1 / 10))"
  have t: "targetBox ws = Box2 ?mn ?mx"
    using assms b by (simp add: targetBox_def Let_def multiplyScalar_def)
  have m: "\<And>q. containsPoint (Box2 mn mx) q \<Longrightarrow> containsPoint (Box2 ?mn ?mx) q"
    using b(2,3) by (auto simp: field_simps)
  have "\<forall>w\<in>set ws. containsPoint (Box2 ?mn ?mx) (Vector2 (vx (start_w w)) (vy (start_w w)))
                 \<and> containsPoint (Box2 ?mn ?mx) (Vector2 (vx (end_w w)) (vy (end_w w)))"
  proof
    fix w assume "w \<in> set ws"
    then have "Vector2 (vx (start_w w)) (vy (start_w w)) \<in> set ?ps"
      "Vector2 (vx (end_w w)) (vy (end_w w)) \<in> set ?ps"
      by (auto simp: wallPositions_def)
    with c m show "containsPoint (Box2 ?mn ?mx) (Vector2 (vx (start_w w)) (vy (start_w w)))
                 \<and> containsPoint (Box2 ?mn ?mx) (Vector2 (vx (end_w w)) (vy (end_w w)))"
      by blast
  qed
  moreover have "v2x ?mn \<le> v2x ?mx" "v2y ?mn \<le> v2y ?mx"
    using b(2,3) by (simp_all add: field_simps)
  ultimately show ?thesis using t by blast
qed

text \<open>
  The frustum planes that \<open>zoomExtend\<close> sets enclose the target box, and their width is
  the aspect ratio of the container times their height.
\<close>

lemma zoomExtend_frustum:
  assumes "is2D s" and "0 < clientWidth s" and "0 < clientHeight s"
    and "targetBox (walls s) = Box2 mn mx" and "v2x mn \<le> v2x mx" and "v2y mn \<le> v2y mx"
  shows "cam_left (camera2D (zoomExtend s)) \<le> v2x mn"
    and "v2x mx \<le> cam_right (camera2D (zoomExtend s))"
    and "cam_bottom (camera2D (zoomExtend s)) \<le> v2y mn"
    and "v2y mx \<le> cam_top (camera2D (zoomExtend s))"
    and "cam_right (camera2D (zoomExtend s)) - cam_left (camera2D (zoomExtend s))
         = clientWidth s / clientHeight s
           * (cam_top (camera2D (zoomExtend s)) - cam_bottom (camera2D (zoomExtend s)))"
    and "cam_position (camera2D (zoomExtend s))
         = Vector3 ((v2x mn + v2x mx) / 2) ((v2y mn + v2y mx) / 2) (vz (cam_position (camera2D s)))"
proof -
  define a where "a = clientWidth s / clientHeight s"
  define W where "W = v2x mx - v2x mn"
  define H where "H = v2y mx - v2y mn"
  define vw where "vw = (if W / a > H then W else H * a)"
  define vh where "vh = (if W / a > H then W / a else H)"
  have a: "0 < a" using assms(2,3) by (simp add: a_def)
  have WH: "0 \<le> W" "0 \<le> H" using assms(5,6) by (simp_all add: W_def H_def)
  have ne: "\<not> (v2x mx < v2x mn \<or> v2y mx < v2y mn)" using assms(5,6) by auto
  have cam: "cam_left (camera2D (zoomExtend s)) = (v2x mn + v2x mx) / 2 - vw / 2"
    "cam_right (camera2D (zoomExtend s)) = (v2x mn + v2x mx) / 2 + vw / 2"
    "cam_bottom (camera2D (zoomExtend s)) = (v2y mn + v2y mx) / 2 - vh / 2"
    "cam_top (camera2D (zoomExtend s)) = (v2y mn + v2y mx) / 2 + vh / 2"
    using assms(1,4) ne
    by (simp_all add: zoomExtend_def Let_def vw_def vh_def W_def H_def a_def)
  have vw: "W \<le> vw"
  proof (cases "W / a > H")
    case True
    then show ?thesis by (simp add: vw_def)
  next
    case False
    then have "W / a \<le> H" by simp
    then have "W \<le> H * a" using a by (simp add: field_simps)
    with False show ?thesis by (simp add: vw_def)
  qed
  have vh: "H \<le> vh" by (simp add: vh_def)
  have r: "vw = a * vh" using a by (simp add: vw_def vh_def)
  show "cam_position (camera2D (zoomExtend s))
         = Vector3 ((v2x mn + v2x mx) / 2) ((v2y mn + v2y mx) / 2) (vz (cam_position (camera2D s)))"
    using assms(1,4) ne by (simp add: zoomExtend_def Let_def)
  show "cam_left (camera2D (zoomExtend s)) \<le> v2x mn"
    using vw unfolding cam W_def by (simp add: field_simps)
  show "v2x mx \<le> cam_right (camera2D (zoomExtend s))"
    using vw unfolding cam W_def by (simp add: field_simps)
  show "cam_bottom (camera2D (zoomExtend s)) \<le> v2y mn"
    using vh unfolding cam H_def by (simp add: field_simps)
  show "v2y mx \<le> cam_top (camera2D (zoomExtend s))"
    using vh unfolding cam H_def by (simp add: field_simps)
  show "cam_right (camera2D (zoomExtend s)) - cam_left (camera2D (zoomExtend s))
         = clientWidth s / clientHeight s
           * (cam_top (camera2D (zoomExtend s)) - cam_bottom (camera2D (zoomExtend s)))"
    unfolding cam a_def [symmetric] using r by simp
qed

lemma inView_zoom_1:
  "cam_zoom c = 1 \<Longrightarrow>
   inView c p =
     (cam_left c \<le> v2x p - vx (cam_position c) \<and> v2x p - vx (cam_position c) \<le> cam_right c
      \<and> cam_bottom c \<le> v2y p - vy (cam_position c) \<and> v2y p - vy (cam_position c) \<le> cam_top c)"
proof -
  assume z: "cam_zoom c = 1"
  have "(cam_right c + cam_left c) / 2 - (cam_right c - cam_left c) / 2 = cam_left c"
    "(cam_right c + cam_left c) / 2 + (cam_right c - cam_left c) / 2 = cam_right c"
    "(cam_top c + cam_bottom c) / 2 - (cam_top c - cam_bottom c) / 2 = cam_bottom c"
    "(cam_top c + cam_bottom c) / 2 + (cam_top c - cam_bottom c) / 2 = cam_top c"
    by (simp_all add: field_simps)
  then show ?thesis by (simp add: inView_def Let_def z)
qed

lemma zoomExtend_zoom: "is2D s \<Longrightarrow> cam_zoom (camera2D (zoomExtend s)) = 1"
  by (simp add: zoomExtend_def Let_def)

text \<open>
  After \<open>zoomExtend\<close> the camera stands over the centre of the target box, so a point
  is in view when its offset from that centre lies between the frustum planes, which
  were set around the centre as well.
\<close>

lemma zoomExtend_inView:
  assumes "is2D s" and "0 < clientWidth s" and "0 < clientHeight s"
    and "targetBox (walls s) = Box2 mn mx" and "v2x mn \<le> v2x mx" and "v2y mn \<le> v2y mx"
  shows "inView (camera2D (zoomExtend s)) p =
     (cam_left (camera2D (zoomExtend s)) \<le> v2x p - (v2x mn + v2x mx) / 2
      \<and> v2x p - (v2x mn + v2x mx) / 2 \<le> cam_right (camera2D (zoomExtend s))
      \<and> cam_bottom (camera2D (zoomExtend s)) \<le> v2y p - (v2y mn + v2y mx) / 2
      \<and> v2y p - (v2y mn + v2y mx) / 2 \<le> cam_top (camera2D (zoomExtend s)))"
  unfolding inView_zoom_1 [OF zoomExtend_zoom [OF assms(1)]] zoomExtend_frustum(6) [OF assms]
  by simp

text \<open>
  When the target box is centred at the origin, as it is for an empty registry, the
  frustum planes are the limits of the view, and the whole box is in view.
\<close>

lemma zoomExtend_centred:
  assumes "is2D s" and "0 < clientWidth s" and "0 < clientHeight s"
    and "targetBox (walls s) = Box2 mn mx" and "v2x mn \<le> v2x mx" and "v2y mn \<le> v2y mx"
    and "v2x mn + v2x mx = 0" and "v2y mn + v2y mx = 0"
    and "containsPoint (Box2 mn mx) p"
  shows "inView (camera2D (zoomExtend s)) p"
  using zoomExtend_frustum(1-4) [OF assms(1-6)] assms(7-9)
  unfolding zoomExtend_inView [OF assms(1-6)] by simp

text \<open>
  Claim C9 fails for walls away from the origin. With one wall from \<open>(20, 20)\<close> to
  \<open>(40, 40)\<close> in a container of 800 by 600, \<open>zoomExtend\<close> pads the bounding box to
  \<open>[18, 42] \<times> [18, 42]\<close> and sets the frustum planes around the centre
  \<open>(30, 30)\<close> of that box, and it also moves the camera to the centre. The planes
  count from the camera, so the camera shows \<open>[44, 76] \<times> [48, 72]\<close>: neither end of
  the wall is in view.
\<close>

theorem zoomExtend_off_centre:
  "walls (snd (addWall (Vector3 20 20 0) (Vector3 40 40 0) (viewer_init 800 600)))
     = [\<lparr> start_w = Vector3 20 20 0, end_w = Vector3 40 40 0,
          angle_w = atan2 20 20, length_w = distanceTo (Vector3 20 20 0) (Vector3 40 40 0),
          id_w = wall_id 0, selected = Some False, highlighted = Some False \<rparr>]
   \<and> targetBox (walls (snd (addWall (Vector3 20 20 0) (Vector3 40 40 0) (viewer_init 800 600))))
     = Box2 (Vector2 18 18) (Vector2 42 42)
   \<and> camera2D (zoomExtend (snd (addWall (Vector3 20 20 0) (Vector3 40 40 0) (viewer_init 800 600))))
     = \<lparr> cam_left = 14, cam_right = 46, cam_top = 42, cam_bottom = 18,
         cam_position = Vector3 30 30 50, cam_zoom = 1 \<rparr>
   \<and> \<not> inView (camera2D (zoomExtend (snd (addWall (Vector3 20 20 0) (Vector3 40 40 0)
                 (viewer_init 800 600))))) (Vector2 20 20)
   \<and> \<not> inView (camera2D (zoomExtend (snd (addWall (Vector3 20 20 0) (Vector3 40 40 0)
                 (viewer_init 800 600))))) (Vector2 40 40)
   \<and> inView (camera2D (zoomExtend (snd (addWall (Vector3 20 20 0) (Vector3 40 40 0)
                 (viewer_init 800 600))))) (Vector2 60 60)"
proof -
  let ?S = "snd (addWall (Vector3 20 20 0) (Vector3 40 40 0) (viewer_init 800 600))"
  have w: "walls ?S = [\<lparr> start_w = Vector3 20 20 0, end_w = Vector3 40 40 0,
          angle_w = atan2 20 20, length_w = distanceTo (Vector3 20 20 0) (Vector3 40 40 0),
          id_w = wall_id 0, selected = Some False, highlighted = Some False \<rparr>]"
    by (simp add: addWall_def Let_def viewer_init_def)
  have t: "targetBox (walls ?S) = Box2 (Vector2 18 18) (Vector2 42 42)"
    unfolding w by (simp add: targetBox_def wallPositions_def setFromPoints_def multiplyScalar_def)
  have i: "is2D ?S" "clientWidth ?S = 800" "clientHeight ?S = 600"
    "vz (cam_position (camera2D ?S)) = 50"
    by (simp_all add: viewer_init_def zoomExtend_def Let_def createCamera2D_def)
  have c: "camera2D (zoomExtend ?S)
     = \<lparr> cam_left = 14, cam_right = 46, cam_top = 42, cam_bottom = 18,
         cam_position = Vector3 30 30 50, cam_zoom = 1 \<rparr>"
    unfolding zoomExtend_def t using i by (simp add: Let_def)
  show ?thesis unfolding c using w t by (simp add: inView_def Let_def)
qed

end
